theory Spec2Isabelle
  imports Complex_Main "HOL-Library.Multiset"
begin

section \<open>Python values used by events_providers.py\<close>

text \<open>
  Exceptions are values. Every \<^verbatim>\<open>raise\<close> of the source and of the library calls it makes
  is an \<open>Inl\<close> of this type; \<open>RequestException\<close> stands for whatever \<^verbatim>\<open>requests.get\<close>,
  \<^verbatim>\<open>raise_for_status\<close> or \<^verbatim>\<open>resp.json\<close> raise.
\<close>

datatype error = TypeError | ValueError | KeyError | AttributeError | RequestException

subsection \<open>datetime\<close>

text \<open>
  A \<^verbatim>\<open>datetime\<close> with its calendar fields and its \<^verbatim>\<open>tzinfo\<close>: \<open>None\<close> is a naive
  value, \<open>Some m\<close> an aware one whose UTC offset is \<open>m\<close> minutes. Microseconds are left out:
  no timestamp format read below carries them.
\<close>

record datetime =
  year :: nat
  month :: nat
  day :: nat
  hour :: nat
  minute :: nat
  second :: nat
  tzinfo :: "int option"

definition is_leap :: "nat \<Rightarrow> bool" where
  "is_leap y = (y mod 4 = 0 \<and> (0 < y mod 100 \<or> y mod 400 = 0))"

definition days_in_month :: "nat \<Rightarrow> nat \<Rightarrow> nat" where
  "days_in_month y m =
     (if m = 2 then (if is_leap y then 29 else 28)
      else if m = 4 \<or> m = 6 \<or> m = 9 \<or> m = 11 then 30 else 31)"

definition days_before_year :: "nat \<Rightarrow> nat" where
  "days_before_year y = (y - 1) * 365 + (y - 1) div 4 - (y - 1) div 100 + (y - 1) div 400"

definition days_before_month :: "nat \<Rightarrow> nat \<Rightarrow> nat" where
  "days_before_month y m = sum_list (map (days_in_month y) [1..<m])"

definition toordinal :: "datetime \<Rightarrow> nat" where
  "toordinal d = days_before_year (year d) + days_before_month (year d) (month d) + day d"

text \<open>
  The instant a datetime compares by: seconds since the start of the proleptic calendar,
  shifted by the UTC offset of an aware value. Two naive values, and two aware values, compare
  by this number; a naive and an aware value do not compare at all.
\<close>

definition utc_seconds :: "datetime \<Rightarrow> int" where
  "utc_seconds d =
     int (toordinal d) * 86400 + int (hour d) * 3600 + int (minute d) * 60 + int (second d)
       - 60 * (case tzinfo d of None \<Rightarrow> 0 | Some off \<Rightarrow> off)"

definition aware :: "datetime \<Rightarrow> bool" where
  "aware d = (tzinfo d \<noteq> None)"

definition dt_lt :: "datetime \<Rightarrow> datetime \<Rightarrow> error + bool" where
  "dt_lt a b = (if aware a = aware b then Inr (utc_seconds a < utc_seconds b) else Inl TypeError)"

definition dt_le :: "datetime \<Rightarrow> datetime \<Rightarrow> error + bool" where
  "dt_le a b = (if aware a = aware b then Inr (utc_seconds a \<le> utc_seconds b) else Inl TypeError)"

subsection \<open>Strings: digits, \<^verbatim>\<open>str.lower\<close>, \<^verbatim>\<open>str.replace\<close>\<close>

definition is_digit :: "char \<Rightarrow> bool" where
  "is_digit c = (48 \<le> (of_char c :: nat) \<and> (of_char c :: nat) \<le> 57)"

definition digit_val :: "char \<Rightarrow> nat" where
  "digit_val c = (of_char c :: nat) - 48"

definition digits_val :: "string \<Rightarrow> nat" where
  "digits_val s = foldl (\<lambda>n c. 10 * n + digit_val c) 0 s"

definition parse_nat :: "string \<Rightarrow> nat option" where
  "parse_nat s = (if s \<noteq> [] \<and> list_all is_digit s then Some (digits_val s) else None)"

text \<open>\<^verbatim>\<open>str.lower\<close> on ASCII text: the letters A to Z are mapped, every other character stays.\<close>

definition lower_char :: "char \<Rightarrow> char" where
  "lower_char c =
     (if 65 \<le> (of_char c :: nat) \<and> (of_char c :: nat) \<le> 90
      then char_of ((of_char c :: nat) + 32) else c)"

definition lower :: "string \<Rightarrow> string" where
  "lower s = map lower_char s"

definition replace_Z :: "string \<Rightarrow> string" where
  "replace_Z s = concat (map (\<lambda>c. if c = CHR ''Z'' then ''+00:00'' else [c]) s)"

definition pad :: "nat \<Rightarrow> nat \<Rightarrow> string" where
  "pad w n = map (\<lambda>i. char_of (48 + (n div 10 ^ i) mod 10)) (rev [0..<w])"

text \<open>\<^verbatim>\<open>d.isoformat()\<close> of a date: \<^verbatim>\<open>YYYY-MM-DD\<close>.\<close>

definition date_isoformat :: "datetime \<Rightarrow> string" where
  "date_isoformat d = pad 4 (year d) @ ''-'' @ pad 2 (month d) @ ''-'' @ pad 2 (day d)"

subsection \<open>\<^verbatim>\<open>datetime.fromisoformat\<close> and \<^verbatim>\<open>float\<close>\<close>

text \<open>
  The formats every Python version with \<^verbatim>\<open>fromisoformat\<close> reads:
  \<^verbatim>\<open>YYYY-MM-DD\<close>, then optionally one separator character and \<^verbatim>\<open>HH\<close>, \<^verbatim>\<open>HH:MM\<close> or
  \<^verbatim>\<open>HH:MM:SS\<close>, then optionally an offset \<^verbatim>\<open>+HH:MM\<close> or \<^verbatim>\<open>-HH:MM\<close>. Anything else is a
  \<open>ValueError\<close>. A string without an offset gives a naive value, one with an offset an aware
  value.
\<close>

definition parse_date :: "string \<Rightarrow> (nat \<times> nat \<times> nat) option" where
  "parse_date s =
     (if length s = 10 \<and> s ! 4 = CHR ''-'' \<and> s ! 7 = CHR ''-'' then
        (case (parse_nat (take 4 s), parse_nat (take 2 (drop 5 s)), parse_nat (drop 8 s)) of
           (Some y, Some m, Some d) \<Rightarrow>
             (if 1 \<le> y \<and> 1 \<le> m \<and> m \<le> 12 \<and> 1 \<le> d \<and> d \<le> days_in_month y m
              then Some (y, m, d) else None)
         | _ \<Rightarrow> None)
      else None)"

definition parse_time :: "string \<Rightarrow> (nat \<times> nat \<times> nat) option" where
  "parse_time s =
     (let hh = parse_nat (take 2 s);
          mm = (if length s = 2 then Some 0 else parse_nat (take 2 (drop 3 s)));
          ss = (if length s \<le> 5 then Some 0 else parse_nat (take 2 (drop 6 s)))
      in if (length s = 2 \<or> (length s = 5 \<and> s ! 2 = CHR '':'')
               \<or> (length s = 8 \<and> s ! 2 = CHR '':'' \<and> s ! 5 = CHR '':'')) then
           (case (hh, mm, ss) of
              (Some h, Some m, Some x) \<Rightarrow>
                (if h < 24 \<and> m < 60 \<and> x < 60 then Some (h, m, x) else None)
            | _ \<Rightarrow> None)
         else None)"

definition parse_offset :: "string \<Rightarrow> int option" where
  "parse_offset s =
     (if length s = 6 \<and> (s ! 0 = CHR ''+'' \<or> s ! 0 = CHR ''-'') \<and> s ! 3 = CHR '':'' then
        (case (parse_nat (take 2 (drop 1 s)), parse_nat (drop 4 s)) of
           (Some h, Some m) \<Rightarrow>
             (if h < 24 \<and> m < 60
              then Some ((if s ! 0 = CHR ''-'' then - 1 else 1) * (int h * 60 + int m))
              else None)
         | _ \<Rightarrow> None)
      else None)"

definition is_sign :: "char \<Rightarrow> bool" where
  "is_sign c = (c = CHR ''+'' \<or> c = CHR ''-'')"

definition fromisoformat :: "string \<Rightarrow> error + datetime" where
  "fromisoformat s =
     (case parse_date (take 10 s) of
        None \<Rightarrow> Inl ValueError
      | Some (y, m, d) \<Rightarrow>
          (if length s = 10 then
             Inr \<lparr>year = y, month = m, day = d, hour = 0, minute = 0, second = 0, tzinfo = None\<rparr>
           else
             (let tstr = drop 11 s;
                  tpart = takeWhile (\<lambda>c. \<not> is_sign c) tstr;
                  opart = dropWhile (\<lambda>c. \<not> is_sign c) tstr
              in case parse_time tpart of
                   None \<Rightarrow> Inl ValueError
                 | Some (h, mi, x) \<Rightarrow>
                     (if opart = [] then
                        Inr \<lparr>year = y, month = m, day = d, hour = h, minute = mi, second = x,
                             tzinfo = None\<rparr>
                      else
                        (case parse_offset opart of
                           None \<Rightarrow> Inl ValueError
                         | Some off \<Rightarrow>
                             Inr \<lparr>year = y, month = m, day = d, hour = h, minute = mi,
                                  second = x, tzinfo = Some off\<rparr>)))))"

text \<open>
  \<^verbatim>\<open>float(s)\<close> on a decimal literal: an optional sign, digits, optionally a point and more
  digits, with at least one digit. Anything else is a \<open>ValueError\<close>. Floats are modelled by
  the real numbers they denote.
\<close>

definition float_of_string :: "string \<Rightarrow> error + real" where
  "float_of_string s =
     (let neg = (s \<noteq> [] \<and> hd s = CHR ''-'');
          body = (if s \<noteq> [] \<and> is_sign (hd s) then tl s else s);
          ip = takeWhile (\<lambda>c. c \<noteq> CHR ''.'') body;
          fp = drop 1 (dropWhile (\<lambda>c. c \<noteq> CHR ''.'') body)
      in if ip @ fp \<noteq> [] \<and> list_all is_digit ip \<and> list_all is_digit fp
         then Inr ((if neg then - 1 else 1)
                   * (real (digits_val ip) + real (digits_val fp) / 10 ^ length fp))
         else Inl ValueError)"

section \<open>The Event record and the Geo Utility\<close>

record event =
  title :: string
  description :: string
  start_time :: datetime
  end_time :: "datetime option"
  venue_name :: string
  address :: string
  lat :: "real option"
  lng :: "real option"
  url :: string
  source :: string

definition radians :: "real \<Rightarrow> real" where
  "radians x = x * pi / 180"

text \<open>The term \<open>a\<close> of \<^verbatim>\<open>haversine_km\<close>, whose square root goes into \<^verbatim>\<open>math.asin\<close>.\<close>

definition haversine_a :: "real \<Rightarrow> real \<Rightarrow> real \<Rightarrow> real \<Rightarrow> real" where
  "haversine_a lat1 lon1 lat2 lon2 =
     (let phi1 = radians lat1; phi2 = radians lat2;
          dphi = radians (lat2 - lat1);
          dlambda = radians (lon2 - lon1)
      in (sin (dphi / 2))\<^sup>2 + cos phi1 * cos phi2 * (sin (dlambda / 2))\<^sup>2)"

definition haversine_km :: "real \<Rightarrow> real \<Rightarrow> real \<Rightarrow> real \<Rightarrow> real" where
  "haversine_km lat1 lon1 lat2 lon2 =
     (let R = 6371; a = haversine_a lat1 lon1 lat2 lon2
      in 2 * R * arcsin (sqrt a))"

section \<open>Upstream payloads and the environment\<close>

text \<open>
  A member of a JSON object of the Eventbrite payload: the key is absent, its value is
  \<^verbatim>\<open>null\<close>, or it has a value of the documented type. The source tells the three apart
  (\<^verbatim>\<open>d[k]\<close>, \<^verbatim>\<open>d.get(k)\<close>, \<^verbatim>\<open>d.get(k, {})\<close>, \<^verbatim>\<open>x or default\<close>).
\<close>

datatype 'a field = Missing | Null | Val 'a

text \<open>\<^verbatim>\<open>d.get(k) or dflt\<close> for a text member.\<close>

definition text_or :: "string field \<Rightarrow> string \<Rightarrow> string" where
  "text_or f dflt = (case f of Val s \<Rightarrow> (if s = [] then dflt else s) | _ \<Rightarrow> dflt)"

text \<open>\<^verbatim>\<open>d.get(k, {}) or {}\<close> for an object member, and the member of such an object.\<close>

definition obj_or :: "'a field \<Rightarrow> 'a \<Rightarrow> 'a" where
  "obj_or f dflt = (case f of Val v \<Rightarrow> v | _ \<Rightarrow> dflt)"

text \<open>\<^verbatim>\<open>conv(d[k]) if d.get(k) else None\<close>: the conversion runs only on a non-empty value.\<close>

definition convert_if_present :: "string field \<Rightarrow> (string \<Rightarrow> error + 'a) \<Rightarrow> error + 'a option" where
  "convert_if_present f conv =
     (case f of
        Val s \<Rightarrow>
          (if s = [] then Inr None
           else (case conv s of Inl err \<Rightarrow> Inl err | Inr v \<Rightarrow> Inr (Some v)))
      | _ \<Rightarrow> Inr None)"

record eb_address =
  address_1 :: "string field"
  city :: "string field"
  region :: "string field"
  postal_code :: "string field"
  country :: "string field"

record eb_venue =
  v_name :: "string field"
  v_address :: "eb_address field"
  v_latitude :: "string field"
  v_longitude :: "string field"

text \<open>
  An item of \<^verbatim>\<open>data["events"]\<close>. \<open>i_name\<close> and \<open>i_description\<close> are the objects whose
  \<^verbatim>\<open>text\<close> member is read, \<open>i_start\<close> and \<open>i_end\<close> those whose \<^verbatim>\<open>utc\<close> member is read.
\<close>

record eb_item =
  i_name :: "string field field"
  i_description :: "string field field"
  i_start :: "string field field"
  i_end :: "string field field"
  i_venue :: "eb_venue field"
  i_url :: "string field"

definition empty_address :: eb_address where
  "empty_address = \<lparr>address_1 = Missing, city = Missing, region = Missing,
                      postal_code = Missing, country = Missing\<rparr>"

definition empty_venue :: eb_venue where
  "empty_venue = \<lparr>v_name = Missing, v_address = Missing, v_latitude = Missing,
                    v_longitude = Missing\<rparr>"

text \<open>
  An \<^verbatim>\<open>.event-item\<close> block of the campus page: the stripped text of its
  \<^verbatim>\<open>.event-title\<close>, \<^verbatim>\<open>.event-date\<close> and \<^verbatim>\<open>.event-venue\<close> tags (\<open>None\<close> when the tag is
  not there), and its first \<^verbatim>\<open>a\<close> tag (\<open>None\<close>: no such tag; \<open>Some None\<close>: a tag
  without \<^verbatim>\<open>href\<close>).
\<close>

record campus_div =
  event_title :: "string option"
  event_date :: "string option"
  event_venue :: "string option"
  link_href :: "string option option"

text \<open>
  What a query reads from outside: the two environment variables, and the outcome of the one
  request each adapter makes (\<open>Inl\<close>: \<^verbatim>\<open>requests.get\<close>, \<^verbatim>\<open>raise_for_status\<close> or the
  decoding of the body raised; \<open>Inr\<close>: the items of \<^verbatim>\<open>data.get("events", [])\<close>, the blocks
  of \<^verbatim>\<open>soup.select(".event-item")\<close>).
\<close>

record world =
  EVENTBRITE_TOKEN :: "string option"
  CAMPUS_EVENTS_URL :: "string option"
  eventbrite_response :: "error + eb_item list"
  campus_response :: "error + campus_div list"

section \<open>The Eventbrite adapter\<close>

fun join :: "string \<Rightarrow> string list \<Rightarrow> string" where
  "join sep [] = []"
| "join sep [x] = x"
| "join sep (x # y # ys) = x @ sep @ join sep (y # ys)"

definition address_parts :: "eb_address \<Rightarrow> string list" where
  "address_parts addr =
     concat (map (\<lambda>f. case f of Val s \<Rightarrow> (if s = [] then [] else [s]) | _ \<Rightarrow> [])
       [address_1 addr, city addr, region addr, postal_code addr, country addr])"

text \<open>\<^verbatim>\<open>item.get("name", {}).get("text") or "Untitled Event"\<close>: a null name has no \<^verbatim>\<open>get\<close>.\<close>

definition item_name :: "eb_item \<Rightarrow> error + string" where
  "item_name item =
     (case i_name item of
        Missing \<Rightarrow> Inr ''Untitled Event''
      | Null \<Rightarrow> Inl AttributeError
      | Val t \<Rightarrow> Inr (text_or t ''Untitled Event''))"

text \<open>\<^verbatim>\<open>datetime.fromisoformat(item["start"]["utc"].replace("Z", "+00:00"))\<close>.\<close>

definition item_start :: "eb_item \<Rightarrow> error + datetime" where
  "item_start item =
     (case i_start item of
        Missing \<Rightarrow> Inl KeyError
      | Null \<Rightarrow> Inl TypeError
      | Val u \<Rightarrow>
          (case u of
             Missing \<Rightarrow> Inl KeyError
           | Null \<Rightarrow> Inl AttributeError
           | Val s \<Rightarrow> fromisoformat (replace_Z s)))"

text \<open>The body of the loop over the items; \<open>Inl\<close> is an exception the loop catches.\<close>

definition eventbrite_item_to_event :: "eb_item \<Rightarrow> error + event" where
  "eventbrite_item_to_event item =
     (case item_name item of
        Inl err \<Rightarrow> Inl err
      | Inr name \<Rightarrow>
     (let descr = text_or (obj_or (i_description item) Missing) [] in
      case item_start item of
        Inl err \<Rightarrow> Inl err
      | Inr start \<Rightarrow>
     (case convert_if_present (obj_or (i_end item) Missing)
             (\<lambda>s. fromisoformat (replace_Z s)) of
        Inl err \<Rightarrow> Inl err
      | Inr end_t \<Rightarrow>
     (let venue = obj_or (i_venue item) empty_venue;
          vname = text_or (v_name venue) ''Unknown venue'';
          addr = obj_or (v_address venue) empty_address;
          addr_text = join '', '' (address_parts addr)
      in
      case convert_if_present (v_latitude venue) float_of_string of
        Inl err \<Rightarrow> Inl err
      | Inr ev_lat \<Rightarrow>
     (case convert_if_present (v_longitude venue) float_of_string of
        Inl err \<Rightarrow> Inl err
      | Inr ev_lng \<Rightarrow>
          Inr \<lparr>title = name, description = descr, start_time = start,
               end_time = end_t, venue_name = vname, address = addr_text,
               lat = ev_lat, lng = ev_lng, url = text_or (i_url item) [],
               source = ''Eventbrite''\<rparr>)))))"

fun eventbrite_loop :: "eb_item list \<Rightarrow> event list" where
  "eventbrite_loop [] = []"
| "eventbrite_loop (item # items) =
     (case eventbrite_item_to_event item of
        Inl err \<Rightarrow> eventbrite_loop items
      | Inr e \<Rightarrow> e # eventbrite_loop items)"

definition fetch_eventbrite_events ::
  "world \<Rightarrow> real \<Rightarrow> real \<Rightarrow> real \<Rightarrow> datetime \<Rightarrow> datetime \<Rightarrow> error + event list" where
  "fetch_eventbrite_events w qlat qlng radius_km start_date end_date =
     (case EVENTBRITE_TOKEN w of
        None \<Rightarrow> Inr []
      | Some token \<Rightarrow>
          (if token = [] then Inr []
           else (case eventbrite_response w of
                   Inl err \<Rightarrow> Inl err
                 | Inr items \<Rightarrow> Inr (eventbrite_loop items))))"

section \<open>The campus adapter\<close>

text \<open>\<^verbatim>\<open>start_date <= start <= end_date\<close>: the second comparison runs only if the first holds.\<close>

definition in_range :: "datetime \<Rightarrow> datetime \<Rightarrow> datetime \<Rightarrow> error + bool" where
  "in_range start_date start end_date =
     (case dt_le start_date start of
        Inl err \<Rightarrow> Inl err
      | Inr b \<Rightarrow> (if b then dt_le start end_date else Inr False))"

text \<open>
  The body of the loop over the blocks: \<open>Inl\<close> is an exception the loop catches,
  \<open>Inr None\<close> the \<^verbatim>\<open>continue\<close> of an event outside the date range.
\<close>

definition campus_div_to_event ::
  "string \<Rightarrow> datetime \<Rightarrow> datetime \<Rightarrow> campus_div \<Rightarrow> error + event option" where
  "campus_div_to_event page_url start_date end_date d =
     (let title_text = (case event_title d of Some t \<Rightarrow> t | None \<Rightarrow> ''Untitled event'');
          date_str = (case event_date d of Some t \<Rightarrow> t | None \<Rightarrow> []);
          vname = (case event_venue d of Some t \<Rightarrow> t | None \<Rightarrow> ''On campus'');
          url_evt = (case link_href d of Some (Some h) \<Rightarrow> h | _ \<Rightarrow> page_url)
      in
      case fromisoformat date_str of
        Inl err \<Rightarrow> Inl err
      | Inr start \<Rightarrow>
          (case in_range start_date start end_date of
             Inl err \<Rightarrow> Inl err
           | Inr b \<Rightarrow>
               (if b then
                  Inr (Some \<lparr>title = title_text, description = ''Campus event'',
                             start_time = start, end_time = None, venue_name = vname,
                             address = vname, lat = None, lng = None, url = url_evt,
                             source = ''Campus''\<rparr>)
                else Inr None)))"

fun campus_loop :: "string \<Rightarrow> datetime \<Rightarrow> datetime \<Rightarrow> campus_div list \<Rightarrow> event list" where
  "campus_loop page_url start_date end_date [] = []"
| "campus_loop page_url start_date end_date (d # ds) =
     (case campus_div_to_event page_url start_date end_date d of
        Inr (Some e) \<Rightarrow> e # campus_loop page_url start_date end_date ds
      | _ \<Rightarrow> campus_loop page_url start_date end_date ds)"

definition fetch_campus_events :: "world \<Rightarrow> datetime \<Rightarrow> datetime \<Rightarrow> error + event list" where
  "fetch_campus_events w start_date end_date =
     (case CAMPUS_EVENTS_URL w of
        None \<Rightarrow> Inr []
      | Some page_url \<Rightarrow>
          (if page_url = [] then Inr []
           else (case campus_response w of
                   Inl err \<Rightarrow> Inl err
                 | Inr divs \<Rightarrow> Inr (campus_loop page_url start_date end_date divs))))"

section \<open>Merge, deduplicate, sort\<close>

type_synonym signature = "string \<times> string \<times> string"

definition sig_of :: "event \<Rightarrow> signature" where
  "sig_of e = (lower (title e), date_isoformat (start_time e), lower (venue_name e))"

text \<open>The inner loop over one adapter's list; the state is \<open>(sigs, merged)\<close>.\<close>

fun dedupe_list :: "event list \<Rightarrow> signature set \<times> event list \<Rightarrow> signature set \<times> event list" where
  "dedupe_list [] st = st"
| "dedupe_list (e # es) (sigs, merged) =
     (if sig_of e \<notin> sigs then dedupe_list es (insert (sig_of e) sigs, merged @ [e])
      else dedupe_list es (sigs, merged))"

text \<open>The outer loop over the adapters' lists.\<close>

fun dedupe_lists ::
  "event list list \<Rightarrow> signature set \<times> event list \<Rightarrow> signature set \<times> event list" where
  "dedupe_lists [] st = st"
| "dedupe_lists (lst # rest) st = dedupe_lists rest (dedupe_list lst st)"

text \<open>
  \<^verbatim>\<open>merged.sort(key=lambda e: e.start_time)\<close>: a stable sort that orders by \<^verbatim>\<open><\<close> on the
  keys alone, written as an insertion sort. A comparison that raises ends the sort.
\<close>

fun insort_start :: "event \<Rightarrow> event list \<Rightarrow> error + event list" where
  "insort_start x [] = Inr [x]"
| "insort_start x (y # ys) =
     (case dt_lt (start_time y) (start_time x) of
        Inl err \<Rightarrow> Inl err
      | Inr b \<Rightarrow>
          (if b then (case insort_start x ys of Inl err \<Rightarrow> Inl err | Inr zs \<Rightarrow> Inr (y # zs))
           else Inr (x # y # ys)))"

fun sort_start :: "event list \<Rightarrow> error + event list" where
  "sort_start [] = Inr []"
| "sort_start (x # xs) =
     (case sort_start xs of Inl err \<Rightarrow> Inl err | Inr ys \<Rightarrow> insort_start x ys)"

definition merge_and_dedupe :: "event list list \<Rightarrow> error + event list" where
  "merge_and_dedupe events_lists = sort_start (snd (dedupe_lists events_lists ({}, [])))"

section \<open>The query\<close>

text \<open>The radius filter, the last loop of \<^verbatim>\<open>get_events_for_query\<close>.\<close>

fun radius_filter :: "real \<Rightarrow> real \<Rightarrow> real \<Rightarrow> event list \<Rightarrow> event list" where
  "radius_filter qlat qlng radius_km [] = []"
| "radius_filter qlat qlng radius_km (e # es) =
     (if lat e \<noteq> None \<and> lng e \<noteq> None then
        (if haversine_km qlat qlng (the (lat e)) (the (lng e)) \<le> radius_km
         then e # radius_filter qlat qlng radius_km es
         else radius_filter qlat qlng radius_km es)
      else e # radius_filter qlat qlng radius_km es)"

definition get_events_for_query ::
  "world \<Rightarrow> real \<Rightarrow> real \<Rightarrow> real \<Rightarrow> datetime \<Rightarrow> datetime \<Rightarrow> error + event list" where
  "get_events_for_query w qlat qlng radius_km start_date end_date =
     (case fetch_eventbrite_events w qlat qlng radius_km start_date end_date of
        Inl err \<Rightarrow> Inl err
      | Inr events_from_eventbrite \<Rightarrow>
          (case fetch_campus_events w start_date end_date of
             Inl err \<Rightarrow> Inl err
           | Inr campus_events \<Rightarrow>
               (case merge_and_dedupe [events_from_eventbrite, campus_events] of
                  Inl err \<Rightarrow> Inl err
                | Inr events \<Rightarrow> Inr (radius_filter qlat qlng radius_km events))))"

section \<open>The index route of app.py\<close>

text \<open>
  The \<^verbatim>\<open>events\<close> list that \<^verbatim>\<open>index\<close> hands to the template. The query parameters are
  \<^verbatim>\<open>request.args.get\<close> results (\<open>None\<close>: not given); \<open>default_start\<close> and
  \<open>default_end\<close> are the ISO texts of today and of today plus seven days. Whatever the
  \<^verbatim>\<open>try\<close> block raises is caught and leaves the list empty.
\<close>

definition param_given :: "string option \<Rightarrow> bool" where
  "param_given p = (case p of None \<Rightarrow> False | Some s \<Rightarrow> s \<noteq> [])"

definition param_or :: "string option \<Rightarrow> string \<Rightarrow> string" where
  "param_or p dflt = (if param_given p then the p else dflt)"

definition index_events ::
  "world \<Rightarrow> string option \<Rightarrow> string option \<Rightarrow> string option \<Rightarrow> string option
     \<Rightarrow> string option \<Rightarrow> string \<Rightarrow> string \<Rightarrow> event list" where
  "index_events w lat_param lng_param radius_param start_param end_param
       default_start default_end =
     (if param_given lat_param \<and> param_given lng_param then
        (case float_of_string (the lat_param) of
           Inl err \<Rightarrow> []
         | Inr qlat \<Rightarrow>
        (case float_of_string (the lng_param) of
           Inl err \<Rightarrow> []
         | Inr qlng \<Rightarrow>
        (case (if param_given radius_param then float_of_string (the radius_param)
               else Inr 10) of
           Inl err \<Rightarrow> []
         | Inr radius_km \<Rightarrow>
        (case fromisoformat (param_or start_param default_start) of
           Inl err \<Rightarrow> []
         | Inr start_dt \<Rightarrow>
        (case fromisoformat (param_or end_param default_end) of
           Inl err \<Rightarrow> []
         | Inr end_dt \<Rightarrow>
        (case get_events_for_query w qlat qlng radius_km start_dt end_dt of
           Inl err \<Rightarrow> []
         | Inr events \<Rightarrow> events))))))
      else [])"

section \<open>Notions the properties are stated with\<close>

text \<open>
  The dedup rule in the specification's words: the event at position \<open>i\<close> of the concatenated
  lists is kept exactly when no earlier position holds an event with the same signature.
\<close>

definition first_per_signature :: "event list \<Rightarrow> event list" where
  "first_per_signature xs =
     map (\<lambda>i. xs ! i)
       (filter (\<lambda>i. sig_of (xs ! i) \<notin> sig_of ` set (take i xs)) [0..<length xs])"

text \<open>The events of a list whose signature is neither in \<open>S\<close> nor met earlier in the list.\<close>

fun keep_new :: "signature set \<Rightarrow> event list \<Rightarrow> event list" where
  "keep_new S [] = []"
| "keep_new S (e # es) = (if sig_of e \<in> S then keep_new S es else e # keep_new (insert (sig_of e) S) es)"

text \<open>The start times of a list are all naive or all aware.\<close>

definition consistent_tz :: "event list \<Rightarrow> bool" where
  "consistent_tz xs =
     (list_all (\<lambda>e. aware (start_time e)) xs \<or> list_all (\<lambda>e. \<not> aware (start_time e)) xs)"

text \<open>The number \<^verbatim>\<open>sort\<close> orders the events by.\<close>

definition sort_instant :: "event \<Rightarrow> int" where
  "sort_instant e = utc_seconds (start_time e)"

text \<open>Sample events and inputs, for the concrete instances of the theorems below.\<close>

definition jazz_a :: event where
  "jazz_a = \<lparr>title = ''Jazz Night'', description = ''Live jazz'',
      start_time = \<lparr>year = 2024, month = 6, day = 1, hour = 20, minute = 0, second = 0,
                     tzinfo = None\<rparr>,
      end_time = None, venue_name = ''Hall A'', address = ''1 Main St'',
      lat = Some 40, lng = Some (- 73), url = ''https://a.example/jazz'',
      source = ''Eventbrite''\<rparr>"

definition jazz_b :: event where
  "jazz_b = \<lparr>title = ''JAZZ NIGHT'', description = ''Campus event'',
      start_time = \<lparr>year = 2024, month = 6, day = 1, hour = 19, minute = 30, second = 0,
                     tzinfo = None\<rparr>,
      end_time = None, venue_name = ''hall a'', address = ''hall a'',
      lat = None, lng = None, url = ''https://campus.example/jazz'', source = ''Campus''\<rparr>"

definition art_walk :: event where
  "art_walk = \<lparr>title = ''Art Walk'', description = ''Campus event'',
      start_time = \<lparr>year = 2024, month = 6, day = 2, hour = 10, minute = 0, second = 0,
                     tzinfo = None\<rparr>,
      end_time = None, venue_name = ''Plaza'', address = ''Plaza'',
      lat = None, lng = None, url = ''https://campus.example/art'', source = ''Campus''\<rparr>"

definition film_night :: event where
  "film_night = \<lparr>title = ''Film Night'', description = ''Campus event'',
      start_time = \<lparr>year = 2024, month = 6, day = 2, hour = 10, minute = 0, second = 0,
                     tzinfo = None\<rparr>,
      end_time = None, venue_name = ''Aula'', address = ''Aula'',
      lat = None, lng = None, url = ''https://campus.example/film'', source = ''Campus''\<rparr>"

text \<open>Sample upstream payloads and environments.\<close>

definition item_origin :: eb_item where
  "item_origin = \<lparr>i_name = Val (Val ''Equator Party''),
      i_description = Val (Val ''At the origin''),
      i_start = Val (Val ''2024-06-01T18:00:00Z''), i_end = Val (Val ''2024-06-01T21:00:00Z''),
      i_venue = Val \<lparr>v_name = Val ''Null Island'',
        v_address = Val \<lparr>address_1 = Val ''1 Buoy Rd'', city = Val ''Atlantic'',
                          region = Null, postal_code = Missing, country = Val ''XX''\<rparr>,
        v_latitude = Val ''0.0'', v_longitude = Val ''0.0''\<rparr>,
      i_url = Val ''https://eb.example/1''\<rparr>"

definition item_far :: eb_item where
  "item_far = \<lparr>i_name = Val (Val ''Date Line Dinner''), i_description = Null,
      i_start = Val (Val ''2024-06-02T18:00:00Z''), i_end = Missing,
      i_venue = Val \<lparr>v_name = Val ''Antimeridian'', v_address = Missing,
        v_latitude = Val ''0.0'', v_longitude = Val ''180.0''\<rparr>,
      i_url = Val ''https://eb.example/2''\<rparr>"

definition item_no_start :: eb_item where
  "item_no_start = \<lparr>i_name = Val (Val ''Undated''), i_description = Null,
      i_start = Missing, i_end = Missing, i_venue = Null, i_url = Null\<rparr>"

definition item_no_geo :: eb_item where
  "item_no_geo = \<lparr>i_name = Val (Val ''Online Talk''), i_description = Null,
      i_start = Val (Val ''2024-06-03T18:00:00Z''), i_end = Missing,
      i_venue = Null, i_url = Val ''https://eb.example/3''\<rparr>"

definition item_lat_only :: eb_item where
  "item_lat_only = \<lparr>i_name = Val (Val ''Half Tagged''), i_description = Null,
      i_start = Val (Val ''2024-06-04T18:00:00Z''), i_end = Missing,
      i_venue = Val \<lparr>v_name = Val ''Somewhere'', v_address = Missing,
        v_latitude = Val ''40.0'', v_longitude = Null\<rparr>,
      i_url = Val ''https://eb.example/4''\<rparr>"

definition utc :: "nat \<Rightarrow> nat \<Rightarrow> nat \<Rightarrow> nat \<Rightarrow> datetime" where
  "utc y m d h = \<lparr>year = y, month = m, day = d, hour = h, minute = 0, second = 0,
                  tzinfo = Some 0\<rparr>"

definition ev_origin :: event where
  "ev_origin = \<lparr>title = ''Equator Party'', description = ''At the origin'',
      start_time = utc 2024 6 1 18, end_time = Some (utc 2024 6 1 21),
      venue_name = ''Null Island'', address = ''1 Buoy Rd, Atlantic, XX'',
      lat = Some 0, lng = Some 0, url = ''https://eb.example/1'', source = ''Eventbrite''\<rparr>"

definition ev_far :: event where
  "ev_far = \<lparr>title = ''Date Line Dinner'', description = [],
      start_time = utc 2024 6 2 18, end_time = None,
      venue_name = ''Antimeridian'', address = [],
      lat = Some 0, lng = Some 180, url = ''https://eb.example/2'', source = ''Eventbrite''\<rparr>"

definition ev_no_geo :: event where
  "ev_no_geo = \<lparr>title = ''Online Talk'', description = [],
      start_time = utc 2024 6 3 18, end_time = None,
      venue_name = ''Unknown venue'', address = [],
      lat = None, lng = None, url = ''https://eb.example/3'', source = ''Eventbrite''\<rparr>"

definition ev_lat_only :: event where
  "ev_lat_only = \<lparr>title = ''Half Tagged'', description = [],
      start_time = utc 2024 6 4 18, end_time = None,
      venue_name = ''Somewhere'', address = [],
      lat = Some 40, lng = None, url = ''https://eb.example/4'', source = ''Eventbrite''\<rparr>"

definition div_art :: campus_div where
  "div_art = \<lparr>event_title = Some ''Art Walk'', event_date = Some ''2024-06-02 10:00'',
      event_venue = Some ''Plaza'', link_href = Some (Some ''https://campus.example/art'')\<rparr>"

definition query_start :: datetime where
  "query_start = \<lparr>year = 2024, month = 6, day = 1, hour = 0, minute = 0, second = 0,
                    tzinfo = None\<rparr>"

definition query_end :: datetime where
  "query_end = \<lparr>year = 2024, month = 6, day = 8, hour = 0, minute = 0, second = 0,
                  tzinfo = None\<rparr>"

text \<open>Only the Eventbrite adapter is configured.\<close>

definition world_eventbrite :: world where
  "world_eventbrite = \<lparr>EVENTBRITE_TOKEN = Some ''token'', CAMPUS_EVENTS_URL = None,
      eventbrite_response = Inr [item_origin, item_far, item_no_start, item_no_geo, item_lat_only],
      campus_response = Inr []\<rparr>"

text \<open>Both adapters are configured and both sources answer.\<close>

definition world_both :: world where
  "world_both = \<lparr>EVENTBRITE_TOKEN = Some ''token'',
      CAMPUS_EVENTS_URL = Some ''https://campus.example/events'',
      eventbrite_response = Inr [item_origin], campus_response = Inr [div_art]\<rparr>"

text \<open>Both adapters are configured; the Eventbrite request fails, the campus page answers.\<close>

definition world_eventbrite_down :: world where
  "world_eventbrite_down = \<lparr>EVENTBRITE_TOKEN = Some ''token'',
      CAMPUS_EVENTS_URL = Some ''https://campus.example/events'',
      eventbrite_response = Inl RequestException, campus_response = Inr [div_art]\<rparr>"

text \<open>No Eventbrite token; the campus page is configured and answers.\<close>

definition world_no_token :: world where
  "world_no_token = \<lparr>EVENTBRITE_TOKEN = None,
      CAMPUS_EVENTS_URL = Some ''https://campus.example/events'',
      eventbrite_response = Inr [item_origin], campus_response = Inr [div_art]\<rparr>"

text \<open>Neither adapter is configured.\<close>

definition world_unconfigured :: world where
  "world_unconfigured = \<lparr>EVENTBRITE_TOKEN = None, CAMPUS_EVENTS_URL = None,
      eventbrite_response = Inr [item_origin], campus_response = Inr [div_art]\<rparr>"

section \<open>Properties of the Geo Utility\<close>

lemma haversine_a_self: "haversine_a la lo la lo = 0"
  by (simp add: haversine_a_def radians_def)

lemma haversine_a_sym: "haversine_a la1 lo1 la2 lo2 = haversine_a la2 lo2 la1 lo1"
proof -
  have s: "(sin (- x))\<^sup>2 = (sin x)\<^sup>2" for x :: real
    by simp
  have d1: "radians (la1 - la2) / 2 = - (radians (la2 - la1) / 2)"
    by (simp add: radians_def left_diff_distrib diff_divide_distrib)
  have d2: "radians (lo1 - lo2) / 2 = - (radians (lo2 - lo1) / 2)"
    by (simp add: radians_def left_diff_distrib diff_divide_distrib)
  show ?thesis
    unfolding haversine_a_def Let_def d1 d2 s by (simp add: mult.commute)
qed

lemma haversine_km_self: "haversine_km la lo la lo = 0"
  by (simp add: haversine_km_def haversine_a_self)

text \<open>
  The term \<open>a\<close> lies between 0 and 1 for all inputs, so neither \<^verbatim>\<open>math.sqrt\<close> nor
  \<^verbatim>\<open>math.asin\<close> meets a value outside its domain: \<^verbatim>\<open>haversine_km\<close> has no error case.
\<close>

lemma haversine_a_range:
  "0 \<le> haversine_a lat1 lon1 lat2 lon2 \<and> haversine_a lat1 lon1 lat2 lon2 \<le> 1"
proof -
  define p where "p = radians lat1"
  define q where "q = radians lat2"
  define s where "s = (sin (radians (lon2 - lon1) / 2))\<^sup>2"
  have d: "radians (lat2 - lat1) = q - p"
    by (simp add: radians_def p_def q_def left_diff_distrib diff_divide_distrib)
  have a: "haversine_a lat1 lon1 lat2 lon2 = (sin ((q - p) / 2))\<^sup>2 + cos p * cos q * s"
    unfolding haversine_a_def Let_def d p_def [symmetric] q_def [symmetric] s_def [symmetric]
    by simp
  have h: "(sin ((q - p) / 2))\<^sup>2 = (1 - cos (q - p)) / 2"
  proof -
    have "2 * ((q - p) / 2) = q - p" by simp
    then have "cos (q - p) = 1 - 2 * (sin ((q - p) / 2))\<^sup>2"
      using cos_double_sin [of "(q - p) / 2"] by (simp only:)
    then show ?thesis by simp
  qed
  have cc: "cos p * cos q = (cos (q - p) + cos (q + p)) / 2"
    by (simp add: cos_add cos_diff)
  have s0: "0 \<le> s" unfolding s_def by simp
  have s1: "s \<le> 1" unfolding s_def by (simp add: abs_square_le_1)
  have e: "haversine_a lat1 lon1 lat2 lon2
      = (1 - (1 - s) * cos (q - p) + s * cos (q + p)) / 2"
    unfolding a h cc by (simp add: field_simps)
  have u1: "(1 - s) * cos (q - p) \<le> (1 - s) * 1"
    using s1 by (intro mult_left_mono) simp_all
  have l1: "(1 - s) * (- 1) \<le> (1 - s) * cos (q - p)"
    using s1 by (intro mult_left_mono) simp_all
  have u2: "s * cos (q + p) \<le> s * 1"
    using s0 by (intro mult_left_mono) simp_all
  have l2: "s * (- 1) \<le> s * cos (q + p)"
    using s0 by (intro mult_left_mono) simp_all
  show ?thesis unfolding e using u1 l1 u2 l2 by simp
qed

text \<open>
  C9. With the haversine formula, Earth radius 6371.0 km and degrees converted to radians,
  the distance from a point to itself is 0 and the distance is symmetric in its two points.
  (Python's floats are read as the real numbers they denote.)
\<close>

theorem haversine_km_zero_and_symmetric:
  "haversine_km la lo la lo = 0
   \<and> haversine_km la1 lo1 la2 lo2 = haversine_km la2 lo2 la1 lo1
   \<and> haversine_km la1 lo1 la2 lo2
       = 2 * 6371 * arcsin (sqrt ((sin (((la2 - la1) * pi / 180) / 2))\<^sup>2
           + cos (la1 * pi / 180) * cos (la2 * pi / 180)
             * (sin (((lo2 - lo1) * pi / 180) / 2))\<^sup>2))"
proof -
  have sym: "haversine_km la1 lo1 la2 lo2 = haversine_km la2 lo2 la1 lo1"
    unfolding haversine_km_def Let_def
    by (simp only: haversine_a_sym [of la1 lo1 la2 lo2])
  have form: "haversine_km la1 lo1 la2 lo2
       = 2 * 6371 * arcsin (sqrt ((sin (((la2 - la1) * pi / 180) / 2))\<^sup>2
           + cos (la1 * pi / 180) * cos (la2 * pi / 180)
             * (sin (((lo2 - lo1) * pi / 180) / 2))\<^sup>2))"
    by (simp add: haversine_km_def haversine_a_def radians_def Let_def)
  show ?thesis
    using haversine_km_self sym form by blast
qed

section \<open>The sort raises exactly on mixed naive and aware start times\<close>

lemma insort_start_same:
  "\<forall>y\<in>set ys. aware (start_time y) = aware (start_time x)
   \<Longrightarrow> insort_start x ys = Inr (insort_key sort_instant x ys)"
  by (induction ys) (auto simp: dt_lt_def sort_instant_def)

lemma sort_start_same:
  "\<forall>x\<in>set xs. aware (start_time x) = a \<Longrightarrow> sort_start xs = Inr (sort_key sort_instant xs)"
proof (induction xs)
  case Nil
  then show ?case by simp
next
  case (Cons x xs)
  then have "sort_start xs = Inr (sort_key sort_instant xs)" by simp
  moreover have "insort_start x (sort_key sort_instant xs)
      = Inr (insort_key sort_instant x (sort_key sort_instant xs))"
    using Cons.prems by (intro insort_start_same) simp
  ultimately show ?case by (simp add: sort_key_def)
qed

lemma consistent_tz_iff:
  "consistent_tz xs \<longleftrightarrow> (\<forall>a\<in>set xs. \<forall>b\<in>set xs. aware (start_time a) = aware (start_time b))"
  unfolding consistent_tz_def list_all_iff by blast

lemma sort_start_consistent:
  assumes "consistent_tz xs"
  shows "sort_start xs = Inr (sort_key sort_instant xs)"
proof -
  from assms have "(\<forall>x\<in>set xs. aware (start_time x) = True) \<or> (\<forall>x\<in>set xs. aware (start_time x) = False)"
    unfolding consistent_tz_def list_all_iff by simp
  then show ?thesis using sort_start_same by blast
qed


lemma insort_start_error: "insort_start x ys = Inl err \<Longrightarrow> err = TypeError"
proof (induction ys)
  case Nil
  then show ?case by simp
next
  case (Cons y ys)
  then show ?case
    by (cases "aware (start_time y) = aware (start_time x)")
       (auto simp: dt_lt_def split: if_splits sum.splits)
qed

lemma sort_start_error: "sort_start xs = Inl err \<Longrightarrow> err = TypeError"
proof (induction xs)
  case Nil
  then show ?case by simp
next
  case (Cons x xs)
  show ?case
  proof (cases "sort_start xs")
    case (Inl e)
    then show ?thesis using Cons by simp
  next
    case (Inr ys)
    then show ?thesis using Cons.prems insort_start_error by simp
  qed
qed

lemma insort_start_head:
  "insort_start x (y # ys) = Inr zs \<Longrightarrow> aware (start_time y) = aware (start_time x)"
  by (cases "aware (start_time y) = aware (start_time x)") (simp_all add: dt_lt_def)

lemma consistent_tz_Cons:
  "\<forall>b\<in>set xs. aware (start_time b) = aware (start_time x) \<Longrightarrow> consistent_tz (x # xs)"
  by (cases "aware (start_time x)") (simp_all add: consistent_tz_def list_all_iff)

lemma sort_start_Inr_consistent: "sort_start xs = Inr ys \<Longrightarrow> consistent_tz xs"
proof (induction xs arbitrary: ys)
  case Nil
  then show ?case by (simp add: consistent_tz_def)
next
  case (Cons x xs)
  from Cons.prems obtain zs where zs: "sort_start xs = Inr zs" and ins: "insort_start x zs = Inr ys"
    by (cases "sort_start xs") simp_all
  have c: "consistent_tz xs" using Cons.IH zs by blast
  then have zs_eq: "zs = sort_key sort_instant xs"
    using sort_start_consistent zs by simp
  show ?case
  proof (cases zs)
    case Nil
    then have "length xs = 0" using zs_eq length_sort [of sort_instant xs] by simp
    then show ?thesis by (simp add: consistent_tz_def)
  next
    case (Cons y ys')
    then have a: "aware (start_time y) = aware (start_time x)"
      using ins insort_start_head by blast
    have "y \<in> set zs" using Cons by simp
    then have y: "y \<in> set xs" using zs_eq by simp
    have "\<forall>b\<in>set xs. aware (start_time b) = aware (start_time x)"
      using c y a unfolding consistent_tz_iff by blast
    then show ?thesis by (rule consistent_tz_Cons)
  qed
qed

lemma sort_start_char:
  "sort_start xs = (if consistent_tz xs then Inr (sort_key sort_instant xs) else Inl TypeError)"
proof (cases "consistent_tz xs")
  case True
  then show ?thesis by (simp add: sort_start_consistent)
next
  case False
  show ?thesis
  proof (cases "sort_start xs")
    case (Inl err)
    then show ?thesis using False sort_start_error by simp
  next
    case (Inr ys)
    then show ?thesis using False sort_start_Inr_consistent by blast
  qed
qed

section \<open>The dedup loops keep the first event of each signature\<close>

lemma dedupe_list_eq:
  "dedupe_list es (sigs, merged) = (sigs \<union> sig_of ` set es, merged @ keep_new sigs es)"
  by (induction es arbitrary: sigs merged) (auto simp: insert_absorb)

lemma keep_new_append:
  "keep_new S (xs @ ys) = keep_new S xs @ keep_new (S \<union> sig_of ` set xs) ys"
  by (induction xs arbitrary: S) (simp_all add: insert_absorb)

lemma dedupe_lists_eq:
  "dedupe_lists ls (sigs, merged) = (sigs \<union> sig_of ` set (concat ls), merged @ keep_new sigs (concat ls))"
  by (induction ls arbitrary: sigs merged) (simp_all add: dedupe_list_eq keep_new_append Un_assoc image_Un)

lemma keep_new_index:
  "keep_new S xs = map (\<lambda>i. xs ! i)
       (filter (\<lambda>i. sig_of (xs ! i) \<notin> S \<union> sig_of ` set (take i xs)) [0..<length xs])"
proof (induction xs arbitrary: S)
  case Nil
  then show ?case by simp
next
  case (Cons x xs)
  have upt: "[0..<length (x # xs)] = 0 # map Suc [0..<length xs]"
    by (simp add: upt_conv_Cons map_Suc_upt del: upt_Suc)
  have tl: "map (\<lambda>i. (x # xs) ! i)
              (filter (\<lambda>i. sig_of ((x # xs) ! i) \<notin> S \<union> sig_of ` set (take i (x # xs)))
                 (map Suc [0..<length xs]))
            = keep_new (insert (sig_of x) S) xs"
    unfolding Cons.IH [of "insert (sig_of x) S"]
    by (simp add: filter_map o_def conj_ac)
  show ?case
  proof (cases "sig_of x \<in> S")
    case True
    then have "insert (sig_of x) S = S" by (rule insert_absorb)
    then show ?thesis unfolding upt using True tl by simp
  next
    case False
    then show ?thesis unfolding upt using tl by simp
  qed
qed

lemma dedupe_first_per_signature:
  "snd (dedupe_lists ls ({}, [])) = first_per_signature (concat ls)"
  by (simp add: dedupe_lists_eq keep_new_index first_per_signature_def)

lemma sig_keep_new: "sig_of ` set (keep_new S xs) = sig_of ` set xs - S"
  by (induction xs arbitrary: S) auto

lemma set_keep_new: "set (keep_new S xs) \<subseteq> set xs"
  by (induction xs arbitrary: S) auto

lemma distinct_keep_new: "distinct (map sig_of (keep_new S xs))"
proof (induction xs arbitrary: S)
  case Nil
  then show ?case by simp
next
  case (Cons x xs)
  have "sig_of x \<notin> sig_of ` set (keep_new (insert (sig_of x) S) xs)"
    unfolding sig_keep_new by simp
  then show ?case using Cons.IH by simp
qed

lemma find_keep_new:
  "e \<in> set (keep_new S xs) \<Longrightarrow> find (\<lambda>x. sig_of x = sig_of e) xs = Some e"
proof (induction xs arbitrary: S)
  case Nil
  then show ?case by simp
next
  case (Cons x xs)
  show ?case
  proof (cases "sig_of x \<in> S")
    case True
    then have e: "e \<in> set (keep_new S xs)" using Cons.prems by simp
    then have "sig_of e \<in> sig_of ` set xs - S" using sig_keep_new by blast
    then have "sig_of x \<noteq> sig_of e" using True by auto
    then show ?thesis using Cons.IH [OF e] by simp
  next
    case False
    show ?thesis
    proof (cases "e = x")
      case True
      then show ?thesis by simp
    next
      case ne: False
      then have e: "e \<in> set (keep_new (insert (sig_of x) S) xs)"
        using Cons.prems False by simp
      then have "sig_of e \<in> sig_of ` set xs - insert (sig_of x) S" using sig_keep_new by blast
      then have "sig_of x \<noteq> sig_of e" by auto
      then show ?thesis using Cons.IH [OF e] by simp
    qed
  qed
qed

lemma merged_eq: "snd (dedupe_lists ls ({}, [])) = keep_new {} (concat ls)"
  unfolding dedupe_lists_eq by simp

lemma merge_and_dedupe_char:
  "merge_and_dedupe ls =
     (if consistent_tz (keep_new {} (concat ls))
      then Inr (sort_key sort_instant (keep_new {} (concat ls))) else Inl TypeError)"
  unfolding merge_and_dedupe_def merged_eq by (rule sort_start_char)

lemma merge_and_dedupe_Inr:
  assumes "merge_and_dedupe ls = Inr out"
  shows "out = sort_key sort_instant (keep_new {} (concat ls))"
    and "consistent_tz (keep_new {} (concat ls))"
proof -
  show c: "consistent_tz (keep_new {} (concat ls))"
  proof (rule ccontr)
    assume "\<not> consistent_tz (keep_new {} (concat ls))"
    then have "merge_and_dedupe ls = Inl TypeError"
      unfolding merge_and_dedupe_char by simp
    then show False using assms by simp
  qed
  then have "merge_and_dedupe ls = Inr (sort_key sort_instant (keep_new {} (concat ls)))"
    unfolding merge_and_dedupe_char by simp
  then show "out = sort_key sort_instant (keep_new {} (concat ls))" using assms by simp
qed

lemma consistent_tz_subset: "consistent_tz xs \<Longrightarrow> set ys \<subseteq> set xs \<Longrightarrow> consistent_tz ys"
  unfolding consistent_tz_def list_all_iff by blast

lemma sorted_wrt_dt_lt:
  assumes "consistent_tz xs" "sorted (map sort_instant xs)"
  shows "sorted_wrt (\<lambda>a b. dt_lt (start_time b) (start_time a) = Inr False) xs"
proof -
  have s: "sorted_wrt (\<lambda>a b. sort_instant a \<le> sort_instant b) xs"
    using assms(2) by (simp add: sorted_map)
  have r: "dt_lt (start_time b) (start_time a) = Inr False"
    if "a \<in> set xs" "b \<in> set xs" "sort_instant a \<le> sort_instant b" for a b
  proof -
    have "aware (start_time b) = aware (start_time a)"
      using assms(1) that(1,2) consistent_tz_iff by blast
    then show ?thesis using that(3) by (simp add: dt_lt_def sort_instant_def)
  qed
  show ?thesis by (rule sorted_wrt_mono_rel [OF r s])
qed

section \<open>Merge and dedup\<close>

lemma mset_merge_and_dedupe:
  "merge_and_dedupe ls = Inr out \<Longrightarrow> mset out = mset (keep_new {} (concat ls))"
  by (drule merge_and_dedupe_Inr(1)) simp

lemma set_merge_and_dedupe:
  "merge_and_dedupe ls = Inr out \<Longrightarrow> set out = set (keep_new {} (concat ls))"
  by (drule merge_and_dedupe_Inr(1)) simp

lemma first_per_signature_keep_new: "first_per_signature xs = keep_new {} xs"
  by (simp add: first_per_signature_def keep_new_index)

lemma merge_pair_same_sig:
  assumes "sig_of ea = sig_of eb"
  shows "merge_and_dedupe [[ea], [eb]] = Inr [ea]"
proof -
  have k: "keep_new {} (concat [[ea], [eb]]) = [ea]" using assms by simp
  have c: "consistent_tz [ea]" by (simp add: consistent_tz_def)
  show ?thesis unfolding merge_and_dedupe_char k using c by simp
qed

text \<open>
  C2. \<^verbatim>\<open>merge_and_dedupe\<close> computes for each event the signature (lowercased title,
  calendar date of the start time, lowercased venue name). Over the adapters' lists in
  iteration order it keeps exactly the first event met for each signature and drops every
  later event with that signature: the list before the sort is \<open>first_per_signature\<close> of
  the concatenation, and a returned list holds the same events, one per signature, each the
  first of its signature in the input. Two events with the same signature from two sources
  give the one of the earlier source alone.
\<close>

theorem merge_and_dedupe_first_wins:
  "sig_of e = (lower (title e), date_isoformat (start_time e), lower (venue_name e))
   \<and> snd (dedupe_lists ls ({}, [])) = first_per_signature (concat ls)
   \<and> (\<forall>out. merge_and_dedupe ls = Inr out \<longrightarrow>
         mset out = mset (first_per_signature (concat ls))
         \<and> distinct (map sig_of out)
         \<and> sig_of ` set out = sig_of ` set (concat ls)
         \<and> (\<forall>x\<in>set out. find (\<lambda>y. sig_of y = sig_of x) (concat ls) = Some x))
   \<and> (sig_of ea = sig_of eb \<longrightarrow> merge_and_dedupe [[ea], [eb]] = Inr [ea])"
proof -
  have a: "snd (dedupe_lists ls ({}, [])) = first_per_signature (concat ls)"
    by (rule dedupe_first_per_signature)
  have b: "mset out = mset (first_per_signature (concat ls))
         \<and> distinct (map sig_of out)
         \<and> sig_of ` set out = sig_of ` set (concat ls)
         \<and> (\<forall>x\<in>set out. find (\<lambda>y. sig_of y = sig_of x) (concat ls) = Some x)"
    if m: "merge_and_dedupe ls = Inr out" for out
  proof -
    have ms: "mset out = mset (keep_new {} (concat ls))" using m by (rule mset_merge_and_dedupe)
    have st: "set out = set (keep_new {} (concat ls))" using m by (rule set_merge_and_dedupe)
    have "mset (map sig_of out) = mset (map sig_of (keep_new {} (concat ls)))"
      using ms by simp
    then have d: "distinct (map sig_of out)"
      using distinct_keep_new [of "{}" "concat ls"] by (metis mset_eq_imp_distinct_iff)
    have i: "sig_of ` set out = sig_of ` set (concat ls)"
      unfolding st sig_keep_new by simp
    have f: "\<forall>x\<in>set out. find (\<lambda>y. sig_of y = sig_of x) (concat ls) = Some x"
      unfolding st using find_keep_new by blast
    show ?thesis using ms d i f by (simp add: first_per_signature_keep_new)
  qed
  have c: "sig_of e = (lower (title e), date_isoformat (start_time e), lower (venue_name e))"
    by (simp add: sig_of_def)
  show ?thesis using a b c merge_pair_same_sig by blast
qed

lemmas sig_eval = sig_of_def lower_def lower_char_def date_isoformat_def pad_def char_of_eq_iff
  upt_conv_Cons

lemmas instant_eval = sort_instant_def utc_seconds_def toordinal_def days_before_year_def
  days_before_month_def days_in_month_def is_leap_def upt_conv_Cons

lemma sig_jazz_a: "sig_of jazz_a = (''jazz night'', ''2024-06-01'', ''hall a'')"
  by (simp add: sig_eval jazz_a_def)

lemma sig_jazz_b: "sig_of jazz_b = (''jazz night'', ''2024-06-01'', ''hall a'')"
  by (simp add: sig_eval jazz_b_def)

lemma sig_art_walk: "sig_of art_walk = (''art walk'', ''2024-06-02'', ''plaza'')"
  by (simp add: sig_eval art_walk_def)

lemma sig_film_night: "sig_of film_night = (''film night'', ''2024-06-02'', ''aula'')"
  by (simp add: sig_eval film_night_def)

lemma instant_jazz_a: "sort_instant jazz_a = 63852955200"
  by (simp add: instant_eval jazz_a_def)

lemma instant_art_walk: "sort_instant art_walk = 63853005600"
  by (simp add: instant_eval art_walk_def)

lemma instant_film_night: "sort_instant film_night = 63853005600"
  by (simp add: instant_eval film_night_def)

lemma naive_samples:
  "\<not> aware (start_time jazz_a)" "\<not> aware (start_time jazz_b)"
  "\<not> aware (start_time art_walk)" "\<not> aware (start_time film_night)"
  by (simp_all add: aware_def jazz_a_def jazz_b_def art_walk_def film_night_def)

lemma sample_merge: "merge_and_dedupe [[jazz_a], [jazz_b, art_walk]] = Inr [jazz_a, art_walk]"
proof -
  have k: "keep_new {} (concat [[jazz_a], [jazz_b, art_walk]]) = [jazz_a, art_walk]"
    by (simp add: sig_jazz_a sig_jazz_b sig_art_walk)
  have c: "consistent_tz [jazz_a, art_walk]"
    by (simp add: consistent_tz_def naive_samples)
  have s: "sort_key sort_instant [jazz_a, art_walk] = [jazz_a, art_walk]"
    by (simp add: instant_jazz_a instant_art_walk)
  show ?thesis unfolding merge_and_dedupe_char k using c s by simp
qed

theorem merge_and_dedupe_first_wins_witness:
  "merge_and_dedupe [[jazz_a], [jazz_b, art_walk]] = Inr [jazz_a, art_walk]
   \<and> sig_of jazz_a = sig_of jazz_b
   \<and> description jazz_a \<noteq> description jazz_b
   \<and> url jazz_a \<noteq> url jazz_b
   \<and> mset [jazz_a, art_walk] = mset (first_per_signature (concat [[jazz_a], [jazz_b, art_walk]]))
   \<and> find (\<lambda>y. sig_of y = sig_of jazz_a) (concat [[jazz_a], [jazz_b, art_walk]]) = Some jazz_a
   \<and> merge_and_dedupe [[jazz_a], [jazz_b]] = Inr [jazz_a]"
proof -
  note t = merge_and_dedupe_first_wins
    [where ls = "[[jazz_a], [jazz_b, art_walk]]" and ea = jazz_a and eb = jazz_b]
  have m: "merge_and_dedupe [[jazz_a], [jazz_b, art_walk]] = Inr [jazz_a, art_walk]"
    by (rule sample_merge)
  have s: "sig_of jazz_a = sig_of jazz_b"
    by (simp add: sig_jazz_a sig_jazz_b)
  have d: "description jazz_a \<noteq> description jazz_b" "url jazz_a \<noteq> url jazz_b"
    by (simp_all add: jazz_a_def jazz_b_def)
  have p: "merge_and_dedupe [[jazz_a], [jazz_b]] = Inr [jazz_a]"
    using t s by blast
  have q: "mset [jazz_a, art_walk] = mset (first_per_signature (concat [[jazz_a], [jazz_b, art_walk]]))"
    using t m by blast
  have "\<forall>x\<in>set [jazz_a, art_walk].
          find (\<lambda>y. sig_of y = sig_of x) (concat [[jazz_a], [jazz_b, art_walk]]) = Some x"
    using t m by blast
  then have f: "find (\<lambda>y. sig_of y = sig_of jazz_a) (concat [[jazz_a], [jazz_b, art_walk]])
      = Some jazz_a"
    by simp
  show ?thesis using m s d p q f by blast
qed

section \<open>The sort\<close>

lemma consistent_tz_keep_new: "consistent_tz xs \<Longrightarrow> consistent_tz (keep_new S xs)"
  using consistent_tz_subset set_keep_new by blast

text \<open>
  C4. For every list of adapter lists, in any order, a list returned by the merge step is
  sorted non-decreasing by start time (no later element compares less than an earlier one),
  and events whose start times compare equal keep the relative order they had after the
  dedup step: the sort is stable. The merge step returns a list whenever the start times are
  all naive or all aware.
\<close>

theorem merge_and_dedupe_sorted_stable:
  "(consistent_tz (concat ls) \<longrightarrow> (\<exists>out. merge_and_dedupe ls = Inr out))
   \<and> (\<forall>out. merge_and_dedupe ls = Inr out \<longrightarrow>
         sorted (map sort_instant out)
         \<and> sorted_wrt (\<lambda>a b. dt_lt (start_time b) (start_time a) = Inr False) out
         \<and> (\<forall>k. filter (\<lambda>e. sort_instant e = k) out
                 = filter (\<lambda>e. sort_instant e = k) (snd (dedupe_lists ls ({}, [])))))"
proof -
  have a: "\<exists>out. merge_and_dedupe ls = Inr out" if "consistent_tz (concat ls)"
  proof -
    have "consistent_tz (keep_new {} (concat ls))"
      using that by (rule consistent_tz_keep_new)
    then show ?thesis unfolding merge_and_dedupe_char by simp
  qed
  have b: "sorted (map sort_instant out)
         \<and> sorted_wrt (\<lambda>a b. dt_lt (start_time b) (start_time a) = Inr False) out
         \<and> (\<forall>k. filter (\<lambda>e. sort_instant e = k) out
                 = filter (\<lambda>e. sort_instant e = k) (snd (dedupe_lists ls ({}, []))))"
    if m: "merge_and_dedupe ls = Inr out" for out
  proof -
    have o: "out = sort_key sort_instant (keep_new {} (concat ls))"
      using m by (rule merge_and_dedupe_Inr(1))
    have c: "consistent_tz (keep_new {} (concat ls))"
      using m by (rule merge_and_dedupe_Inr(2))
    have s: "sorted (map sort_instant out)"
      unfolding o by (rule sorted_sort_key)
    have "set out \<subseteq> set (keep_new {} (concat ls))" unfolding o by simp
    then have co: "consistent_tz out" using c consistent_tz_subset by blast
    have w: "sorted_wrt (\<lambda>a b. dt_lt (start_time b) (start_time a) = Inr False) out"
      using co s by (rule sorted_wrt_dt_lt)
    have f: "filter (\<lambda>e. sort_instant e = k) out
                 = filter (\<lambda>e. sort_instant e = k) (snd (dedupe_lists ls ({}, [])))" for k
      unfolding o merged_eq by (rule sort_key_stable)
    show ?thesis using s w f by blast
  qed
  show ?thesis using a b by blast
qed

lemma sample_merge_ties:
  "merge_and_dedupe [[art_walk, jazz_a], [film_night]] = Inr [jazz_a, art_walk, film_night]"
proof -
  have k: "keep_new {} (concat [[art_walk, jazz_a], [film_night]]) = [art_walk, jazz_a, film_night]"
    by (simp add: sig_jazz_a sig_film_night sig_art_walk)
  have c: "consistent_tz [art_walk, jazz_a, film_night]"
    by (simp add: consistent_tz_def naive_samples)
  have s: "sort_key sort_instant [art_walk, jazz_a, film_night] = [jazz_a, art_walk, film_night]"
    by (simp add: instant_jazz_a instant_art_walk instant_film_night)
  show ?thesis unfolding merge_and_dedupe_char k using c s by simp
qed

theorem merge_and_dedupe_sorted_stable_witness:
  "consistent_tz (concat [[art_walk, jazz_a], [film_night]])
   \<and> merge_and_dedupe [[art_walk, jazz_a], [film_night]] = Inr [jazz_a, art_walk, film_night]
   \<and> sorted (map sort_instant [jazz_a, art_walk, film_night])
   \<and> sorted_wrt (\<lambda>a b. dt_lt (start_time b) (start_time a) = Inr False)
        [jazz_a, art_walk, film_night]
   \<and> start_time art_walk = start_time film_night
   \<and> filter (\<lambda>e. sort_instant e = sort_instant art_walk) [jazz_a, art_walk, film_night]
       = filter (\<lambda>e. sort_instant e = sort_instant art_walk)
           (snd (dedupe_lists [[art_walk, jazz_a], [film_night]] ({}, [])))
   \<and> filter (\<lambda>e. sort_instant e = sort_instant art_walk) [jazz_a, art_walk, film_night]
       = [art_walk, film_night]"
proof -
  note t = merge_and_dedupe_sorted_stable [where ls = "[[art_walk, jazz_a], [film_night]]"]
  have c: "consistent_tz (concat [[art_walk, jazz_a], [film_night]])"
    by (simp add: consistent_tz_def naive_samples)
  have m: "merge_and_dedupe [[art_walk, jazz_a], [film_night]] = Inr [jazz_a, art_walk, film_night]"
    by (rule sample_merge_ties)
  have s: "sorted (map sort_instant [jazz_a, art_walk, film_night])"
    using t m by blast
  have w: "sorted_wrt (\<lambda>a b. dt_lt (start_time b) (start_time a) = Inr False)
        [jazz_a, art_walk, film_night]"
    using t m by blast
  have e: "start_time art_walk = start_time film_night"
    by (simp add: art_walk_def film_night_def)
  have f: "filter (\<lambda>e. sort_instant e = sort_instant art_walk) [jazz_a, art_walk, film_night]
       = filter (\<lambda>e. sort_instant e = sort_instant art_walk)
           (snd (dedupe_lists [[art_walk, jazz_a], [film_night]] ({}, [])))"
    using t m by blast
  have g: "filter (\<lambda>e. sort_instant e = sort_instant art_walk) [jazz_a, art_walk, film_night]
       = [art_walk, film_night]"
    by (simp add: instant_jazz_a instant_art_walk instant_film_night)
  show ?thesis using c m s w e f g by blast
qed

section \<open>The radius filter\<close>

lemma radius_filter_eq:
  "radius_filter qa qo r es =
     filter (\<lambda>e. lat e \<noteq> None \<and> lng e \<noteq> None
                 \<longrightarrow> haversine_km qa qo (the (lat e)) (the (lng e)) \<le> r) es"
  by (induction es) simp_all

lemma get_events_for_query_eq:
  assumes "fetch_eventbrite_events w qa qo r sd ed = Inr eb"
    and "fetch_campus_events w sd ed = Inr ca"
  shows "get_events_for_query w qa qo r sd ed =
     (case merge_and_dedupe [eb, ca] of Inl err \<Rightarrow> Inl err
      | Inr events \<Rightarrow> Inr (radius_filter qa qo r events))"
  using assms by (simp add: get_events_for_query_def)

lemma get_events_for_query_Inr:
  assumes "get_events_for_query w qa qo r sd ed = Inr out"
  shows "\<exists>eb ca events. fetch_eventbrite_events w qa qo r sd ed = Inr eb
     \<and> fetch_campus_events w sd ed = Inr ca
     \<and> merge_and_dedupe [eb, ca] = Inr events
     \<and> out = radius_filter qa qo r events"
proof -
  obtain eb where eb: "fetch_eventbrite_events w qa qo r sd ed = Inr eb"
    using assms unfolding get_events_for_query_def
    by (cases "fetch_eventbrite_events w qa qo r sd ed") simp_all
  obtain ca where ca: "fetch_campus_events w sd ed = Inr ca"
    using assms eb unfolding get_events_for_query_def
    by (cases "fetch_campus_events w sd ed") simp_all
  obtain events where ev: "merge_and_dedupe [eb, ca] = Inr events"
    using assms eb ca unfolding get_events_for_query_def
    by (cases "merge_and_dedupe [eb, ca]") simp_all
  have "out = radius_filter qa qo r events"
    using assms eb ca ev unfolding get_events_for_query_def by simp
  then show ?thesis using eb ca ev by blast
qed

lemma haversine_antipode: "haversine_km 0 0 0 180 = 6371 * pi"
proof -
  have "haversine_a 0 0 0 180 = 1"
    by (simp add: haversine_a_def radians_def)
  then show ?thesis by (simp add: haversine_km_def)
qed

text \<open>
  C3. For every event that survives the dedup, the query keeps it if and only if both
  coordinates are present and the haversine distance from the query origin is at most the
  radius, or a coordinate is absent (then it is kept unconditionally). So an event exactly at
  the query origin is kept for every non-negative radius, an event at a computed distance
  greater than the radius is excluded, and an event without coordinates is kept.
\<close>

theorem radius_filter_keeps:
  assumes "fetch_eventbrite_events w qa qo r sd ed = Inr eb"
    and "fetch_campus_events w sd ed = Inr ca"
    and "merge_and_dedupe [eb, ca] = Inr events"
    and "e \<in> set events"
  shows "\<exists>out. get_events_for_query w qa qo r sd ed = Inr out
     \<and> (e \<in> set out \<longleftrightarrow>
          (\<exists>la lo. lat e = Some la \<and> lng e = Some lo \<and> haversine_km qa qo la lo \<le> r)
          \<or> lat e = None \<or> lng e = None)
     \<and> (lat e = Some qa \<and> lng e = Some qo \<and> 0 \<le> r \<longrightarrow> e \<in> set out)
     \<and> (\<forall>la lo. lat e = Some la \<and> lng e = Some lo \<and> r < haversine_km qa qo la lo
           \<longrightarrow> e \<notin> set out)
     \<and> (lat e = None \<and> lng e = None \<longrightarrow> e \<in> set out)"
proof -
  let ?out = "radius_filter qa qo r events"
  have g: "get_events_for_query w qa qo r sd ed = Inr ?out"
    using assms(1,2,3) by (simp add: get_events_for_query_eq)
  have m: "e \<in> set ?out \<longleftrightarrow>
      (lat e \<noteq> None \<and> lng e \<noteq> None \<longrightarrow> haversine_km qa qo (the (lat e)) (the (lng e)) \<le> r)"
    using assms(4) by (simp add: radius_filter_eq)
  have i: "e \<in> set ?out \<longleftrightarrow>
          (\<exists>la lo. lat e = Some la \<and> lng e = Some lo \<and> haversine_km qa qo la lo \<le> r)
          \<or> lat e = None \<or> lng e = None"
    unfolding m by (cases "lat e"; cases "lng e") simp_all
  have o: "lat e = Some qa \<and> lng e = Some qo \<and> 0 \<le> r \<longrightarrow> e \<in> set ?out"
    unfolding i by (simp add: haversine_km_self)
  have f: "\<forall>la lo. lat e = Some la \<and> lng e = Some lo \<and> r < haversine_km qa qo la lo
           \<longrightarrow> e \<notin> set ?out"
    unfolding i by simp
  have n: "lat e = None \<and> lng e = None \<longrightarrow> e \<in> set ?out"
    unfolding i by simp
  show ?thesis
  proof (intro exI conjI)
    show "get_events_for_query w qa qo r sd ed = Inr ?out" by (rule g)
    show "e \<in> set ?out \<longleftrightarrow>
          (\<exists>la lo. lat e = Some la \<and> lng e = Some lo \<and> haversine_km qa qo la lo \<le> r)
          \<or> lat e = None \<or> lng e = None" by (rule i)
    show "lat e = Some qa \<and> lng e = Some qo \<and> 0 \<le> r \<longrightarrow> e \<in> set ?out" by (rule o)
    show "\<forall>la lo. lat e = Some la \<and> lng e = Some lo \<and> r < haversine_km qa qo la lo
           \<longrightarrow> e \<notin> set ?out" by (rule f)
    show "lat e = None \<and> lng e = None \<longrightarrow> e \<in> set ?out" by (rule n)
  qed
qed

section \<open>The adapters on the sample payloads\<close>

lemmas seconds_eval = utc_seconds_def toordinal_def days_before_year_def
  days_before_month_def days_in_month_def is_leap_def upt_conv_Cons

lemma parse_art_date: "fromisoformat ''2024-06-02 10:00'' = Inr (start_time art_walk)"
  by code_simp

lemma art_in_range: "in_range query_start (start_time art_walk) query_end = Inr True"
  by (simp add: in_range_def dt_le_def aware_def seconds_eval query_start_def query_end_def
      art_walk_def)

lemma div_art_event:
  "campus_div_to_event ''https://campus.example/events'' query_start query_end div_art
     = Inr (Some art_walk)"
proof -
  have "campus_div_to_event ''https://campus.example/events'' query_start query_end div_art
     = Inr (Some \<lparr>title = ''Art Walk'', description = ''Campus event'',
                 start_time = start_time art_walk, end_time = None, venue_name = ''Plaza'',
                 address = ''Plaza'', lat = None, lng = None,
                 url = ''https://campus.example/art'', source = ''Campus''\<rparr>)"
    by (simp add: campus_div_to_event_def div_art_def parse_art_date art_in_range Let_def)
  then show ?thesis by (simp add: art_walk_def)
qed

lemma item_origin_event: "eventbrite_item_to_event item_origin = Inr ev_origin"
  by code_simp

lemma item_far_event: "eventbrite_item_to_event item_far = Inr ev_far"
  by code_simp

lemma item_no_start_event: "eventbrite_item_to_event item_no_start = Inl KeyError"
  by code_simp

lemma item_no_geo_event: "eventbrite_item_to_event item_no_geo = Inr ev_no_geo"
  by code_simp

lemma item_lat_only_event: "eventbrite_item_to_event item_lat_only = Inr ev_lat_only"
  by code_simp

lemma fetch_world_eventbrite:
  "fetch_eventbrite_events world_eventbrite 0 0 10 query_start query_end
     = Inr [ev_origin, ev_far, ev_no_geo, ev_lat_only]"
  by (simp add: fetch_eventbrite_events_def world_eventbrite_def item_origin_event
      item_far_event item_no_start_event item_no_geo_event item_lat_only_event)

lemma fetch_campus_world_eventbrite:
  "fetch_campus_events world_eventbrite query_start query_end = Inr []"
  by (simp add: fetch_campus_events_def world_eventbrite_def)

section \<open>A query against the Eventbrite sample\<close>

lemma utc_instants:
  "sort_instant ev_origin = 63852948000" "sort_instant ev_far = 63853034400"
  "sort_instant ev_no_geo = 63853120800" "sort_instant ev_lat_only = 63853207200"
  by (simp_all add: instant_eval utc_def ev_origin_def ev_far_def ev_no_geo_def ev_lat_only_def)

lemma utc_sigs:
  "sig_of ev_origin = (''equator party'', ''2024-06-01'', ''null island'')"
  "sig_of ev_far = (''date line dinner'', ''2024-06-02'', ''antimeridian'')"
  "sig_of ev_no_geo = (''online talk'', ''2024-06-03'', ''unknown venue'')"
  "sig_of ev_lat_only = (''half tagged'', ''2024-06-04'', ''somewhere'')"
  by (simp_all add: sig_eval utc_def ev_origin_def ev_far_def ev_no_geo_def ev_lat_only_def)

lemma aware_samples:
  "aware (start_time ev_origin)" "aware (start_time ev_far)"
  "aware (start_time ev_no_geo)" "aware (start_time ev_lat_only)"
  by (simp_all add: aware_def utc_def ev_origin_def ev_far_def ev_no_geo_def ev_lat_only_def)

lemma merge_world_eventbrite:
  "merge_and_dedupe [[ev_origin, ev_far, ev_no_geo, ev_lat_only], []]
     = Inr [ev_origin, ev_far, ev_no_geo, ev_lat_only]"
proof -
  have k: "keep_new {} (concat [[ev_origin, ev_far, ev_no_geo, ev_lat_only], []])
      = [ev_origin, ev_far, ev_no_geo, ev_lat_only]"
    by (simp add: utc_sigs)
  have c: "consistent_tz [ev_origin, ev_far, ev_no_geo, ev_lat_only]"
    by (simp add: consistent_tz_def aware_samples)
  have s: "sort_key sort_instant [ev_origin, ev_far, ev_no_geo, ev_lat_only]
      = [ev_origin, ev_far, ev_no_geo, ev_lat_only]"
    by (simp add: utc_instants)
  show ?thesis unfolding merge_and_dedupe_char k using c s by simp
qed

lemma coords_samples:
  "lat ev_origin = Some 0" "lng ev_origin = Some 0" "lat ev_far = Some 0" "lng ev_far = Some 180"
  "lat ev_no_geo = None" "lng ev_no_geo = None" "lat ev_lat_only = Some 40" "lng ev_lat_only = None"
  by (simp_all add: ev_origin_def ev_far_def ev_no_geo_def ev_lat_only_def)

lemma far_beyond_radius: "10 < haversine_km 0 0 0 180"
proof -
  have "(10::real) < 6371 * 2" by simp
  also have "\<dots> \<le> 6371 * pi" using pi_ge_two by simp
  finally show ?thesis by (simp add: haversine_antipode)
qed

lemma filter_world_eventbrite:
  "radius_filter 0 0 10 [ev_origin, ev_far, ev_no_geo, ev_lat_only]
     = [ev_origin, ev_no_geo, ev_lat_only]"
  using far_beyond_radius by (simp add: coords_samples haversine_km_self)

lemma query_world_eventbrite:
  "get_events_for_query world_eventbrite 0 0 10 query_start query_end
     = Inr [ev_origin, ev_no_geo, ev_lat_only]"
  unfolding get_events_for_query_eq [OF fetch_world_eventbrite fetch_campus_world_eventbrite]
  by (simp only: merge_world_eventbrite sum.case filter_world_eventbrite)

lemma distinct_samples:
  "ev_far \<noteq> ev_origin" "ev_far \<noteq> ev_no_geo" "ev_far \<noteq> ev_lat_only"
  by (simp_all add: ev_origin_def ev_far_def ev_no_geo_def ev_lat_only_def)

theorem radius_filter_keeps_witness:
  "get_events_for_query world_eventbrite 0 0 10 query_start query_end
     = Inr [ev_origin, ev_no_geo, ev_lat_only]
   \<and> lat ev_origin = Some 0 \<and> lng ev_origin = Some 0
   \<and> ev_origin \<in> set [ev_origin, ev_no_geo, ev_lat_only]
   \<and> lat ev_far = Some 0 \<and> lng ev_far = Some 180 \<and> 10 < haversine_km 0 0 0 180
   \<and> ev_far \<notin> set [ev_origin, ev_no_geo, ev_lat_only]
   \<and> lat ev_no_geo = None \<and> lng ev_no_geo = None
   \<and> ev_no_geo \<in> set [ev_origin, ev_no_geo, ev_lat_only]"
proof -
  note q = query_world_eventbrite
  note t = radius_filter_keeps [OF fetch_world_eventbrite fetch_campus_world_eventbrite
      merge_world_eventbrite]
  have a: "ev_origin \<in> set [ev_origin, ev_no_geo, ev_lat_only]"
    using t [of ev_origin] q by (simp add: coords_samples)
  have b: "ev_far \<notin> set [ev_origin, ev_no_geo, ev_lat_only]"
    using t [of ev_far] q far_beyond_radius by (simp add: coords_samples)
  have c: "ev_no_geo \<in> set [ev_origin, ev_no_geo, ev_lat_only]"
    using t [of ev_no_geo] q by (simp add: coords_samples)
  show ?thesis using q a b c far_beyond_radius by (simp add: coords_samples)
qed

section \<open>Partial coordinates, and the frame of the query\<close>

text \<open>
  C10. An event with exactly one of lat and lng present takes the else branch of the radius
  filter: it is kept whatever the query origin and the radius are, no distance decides, and
  the filter has no failing case.
\<close>

theorem partial_geo_kept:
  assumes "fetch_eventbrite_events w qa qo r sd ed = Inr eb"
    and "fetch_campus_events w sd ed = Inr ca"
    and "merge_and_dedupe [eb, ca] = Inr events"
    and "e \<in> set events"
    and "(lat e = None) \<noteq> (lng e = None)"
  shows "(\<exists>out. get_events_for_query w qa qo r sd ed = Inr out \<and> e \<in> set out)
     \<and> radius_filter qa' qo' r' [e] = [e]"
proof -
  let ?out = "radius_filter qa qo r events"
  have g: "get_events_for_query w qa qo r sd ed = Inr ?out"
    using assms(1,2,3) by (simp add: get_events_for_query_eq)
  have n: "\<not> (lat e \<noteq> None \<and> lng e \<noteq> None)"
    using assms(5) by (cases "lat e"; cases "lng e") simp_all
  have "e \<in> set ?out" unfolding radius_filter_eq using assms(4) n by auto
  then have a: "\<exists>out. get_events_for_query w qa qo r sd ed = Inr out \<and> e \<in> set out"
    using g by blast
  have b: "radius_filter qa' qo' r' [e] = [e]" using n by simp
  show ?thesis using a b by blast
qed

theorem partial_geo_kept_witness:
  "lat ev_lat_only = Some 40 \<and> lng ev_lat_only = None
   \<and> get_events_for_query world_eventbrite 0 0 10 query_start query_end
       = Inr [ev_origin, ev_no_geo, ev_lat_only]
   \<and> ev_lat_only \<in> set [ev_origin, ev_no_geo, ev_lat_only]
   \<and> radius_filter 0 0 10 [ev_lat_only] = [ev_lat_only]"
proof -
  note q = query_world_eventbrite
  have e: "ev_lat_only \<in> set [ev_origin, ev_far, ev_no_geo, ev_lat_only]" by simp
  have p: "(lat ev_lat_only = None) \<noteq> (lng ev_lat_only = None)"
    by (simp add: coords_samples)
  note t = partial_geo_kept [OF fetch_world_eventbrite fetch_campus_world_eventbrite
      merge_world_eventbrite e p, of 0 0 10]
  have a: "ev_lat_only \<in> set [ev_origin, ev_no_geo, ev_lat_only]"
    using t q by simp
  have b: "radius_filter 0 0 10 [ev_lat_only] = [ev_lat_only]"
    using t by blast
  show ?thesis using q a b by (simp add: coords_samples)
qed

lemma mset_keep_new: "mset (keep_new S xs) \<subseteq># mset xs"
proof (induction xs arbitrary: S)
  case Nil
  then show ?case by simp
next
  case (Cons x xs)
  show ?case
  proof (cases "sig_of x \<in> S")
    case True
    have "mset xs \<subseteq># add_mset x (mset xs)" by simp
    then have "mset (keep_new S xs) \<subseteq># add_mset x (mset xs)"
      using Cons.IH [of S] subset_mset.order_trans by blast
    then show ?thesis using True by simp
  next
    case False
    then show ?thesis using Cons.IH [of "insert (sig_of x) S"] by simp
  qed
qed

lemma mset_radius_filter: "mset (radius_filter qa qo r es) \<subseteq># mset es"
  unfolding radius_filter_eq by simp

text \<open>
  C8. Every event record in the output of the query is, field for field, a record of one of
  the adapters' lists: merge, dedup, sort and radius filter only drop and reorder records
  (the output is a sub-multiset of the two lists together) and change no field.
\<close>

theorem query_only_reorders_and_filters:
  assumes "get_events_for_query w qa qo r sd ed = Inr out"
  shows "\<exists>eb ca. fetch_eventbrite_events w qa qo r sd ed = Inr eb
     \<and> fetch_campus_events w sd ed = Inr ca
     \<and> mset out \<subseteq># mset (eb @ ca)
     \<and> set out \<subseteq> set eb \<union> set ca"
proof -
  obtain eb ca events where eb: "fetch_eventbrite_events w qa qo r sd ed = Inr eb"
    and ca: "fetch_campus_events w sd ed = Inr ca"
    and m: "merge_and_dedupe [eb, ca] = Inr events"
    and o: "out = radius_filter qa qo r events"
    using get_events_for_query_Inr [OF assms] by blast
  have "mset events = mset (keep_new {} (concat [eb, ca]))"
    using m by (rule mset_merge_and_dedupe)
  then have "mset events \<subseteq># mset (eb @ ca)"
    using mset_keep_new [of "{}" "eb @ ca"] by simp
  then have ms: "mset out \<subseteq># mset (eb @ ca)"
    unfolding o using mset_radius_filter subset_mset.order_trans by blast
  then have "set_mset (mset out) \<subseteq> set_mset (mset (eb @ ca))" by (rule set_mset_mono)
  then have st: "set out \<subseteq> set eb \<union> set ca" by simp
  show ?thesis using eb ca ms st by blast
qed

theorem query_only_reorders_and_filters_witness:
  "get_events_for_query world_eventbrite 0 0 10 query_start query_end
     = Inr [ev_origin, ev_no_geo, ev_lat_only]
   \<and> fetch_eventbrite_events world_eventbrite 0 0 10 query_start query_end
       = Inr [ev_origin, ev_far, ev_no_geo, ev_lat_only]
   \<and> fetch_campus_events world_eventbrite query_start query_end = Inr []
   \<and> mset [ev_origin, ev_no_geo, ev_lat_only]
       \<subseteq># mset ([ev_origin, ev_far, ev_no_geo, ev_lat_only] @ [])
   \<and> set [ev_origin, ev_no_geo, ev_lat_only]
       \<subseteq> set [ev_origin, ev_far, ev_no_geo, ev_lat_only] \<union> set []"
proof -
  note q = query_world_eventbrite
  obtain eb ca where eb: "fetch_eventbrite_events world_eventbrite 0 0 10 query_start query_end = Inr eb"
    and ca: "fetch_campus_events world_eventbrite query_start query_end = Inr ca"
    and ms: "mset [ev_origin, ev_no_geo, ev_lat_only] \<subseteq># mset (eb @ ca)"
    and st: "set [ev_origin, ev_no_geo, ev_lat_only] \<subseteq> set eb \<union> set ca"
    using query_only_reorders_and_filters [OF q] by blast
  have e: "eb = [ev_origin, ev_far, ev_no_geo, ev_lat_only]"
    using eb fetch_world_eventbrite by simp
  have c: "ca = []"
    using ca fetch_campus_world_eventbrite by simp
  show ?thesis
    using q fetch_world_eventbrite fetch_campus_world_eventbrite ms st unfolding e c by blast
qed

section \<open>Missing configuration\<close>

lemma fetch_eventbrite_no_token:
  "EVENTBRITE_TOKEN w = None \<or> EVENTBRITE_TOKEN w = Some []
   \<Longrightarrow> fetch_eventbrite_events w qa qo r sd ed = Inr []"
  by (auto simp: fetch_eventbrite_events_def)

lemma fetch_campus_no_url:
  "CAMPUS_EVENTS_URL w = None \<or> CAMPUS_EVENTS_URL w = Some []
   \<Longrightarrow> fetch_campus_events w sd ed = Inr []"
  by (auto simp: fetch_campus_events_def)

lemma set_query_subset:
  assumes "get_events_for_query w qa qo r sd ed = Inr out"
    and "fetch_eventbrite_events w qa qo r sd ed = Inr eb"
    and "fetch_campus_events w sd ed = Inr ca"
  shows "set out \<subseteq> set eb \<union> set ca"
proof -
  obtain events where m: "merge_and_dedupe [eb, ca] = Inr events"
    and o: "out = radius_filter qa qo r events"
    using get_events_for_query_Inr [OF assms(1)] assms(2,3) by auto
  have "set events = set (keep_new {} (concat [eb, ca]))"
    using m by (rule set_merge_and_dedupe)
  then have "set events \<subseteq> set eb \<union> set ca"
    using set_keep_new [of "{}" "concat [eb, ca]"] by simp
  moreover have "set out \<subseteq> set events" unfolding o radius_filter_eq by simp
  ultimately show ?thesis by blast
qed

lemma merge_nil_nil: "merge_and_dedupe [[], []] = Inr []"
  by (simp add: merge_and_dedupe_def)

text \<open>
  C6. If the Eventbrite token is absent from the environment (or empty), the Eventbrite
  adapter returns an empty list and raises nothing, and every event of the query's result
  comes from the campus adapter; if the campus URL is absent (or empty), the campus adapter
  returns an empty list, and every event of the result comes from the Eventbrite adapter;
  with both absent the query returns the empty list.
\<close>

theorem missing_configuration_is_empty:
  "(EVENTBRITE_TOKEN w = None \<or> EVENTBRITE_TOKEN w = Some [] \<longrightarrow>
      fetch_eventbrite_events w qa qo r sd ed = Inr []
      \<and> (\<forall>out ca. get_events_for_query w qa qo r sd ed = Inr out
            \<and> fetch_campus_events w sd ed = Inr ca \<longrightarrow> set out \<subseteq> set ca))
   \<and> (CAMPUS_EVENTS_URL w = None \<or> CAMPUS_EVENTS_URL w = Some [] \<longrightarrow>
      fetch_campus_events w sd ed = Inr []
      \<and> (\<forall>out eb. get_events_for_query w qa qo r sd ed = Inr out
            \<and> fetch_eventbrite_events w qa qo r sd ed = Inr eb \<longrightarrow> set out \<subseteq> set eb))
   \<and> ((EVENTBRITE_TOKEN w = None \<or> EVENTBRITE_TOKEN w = Some [])
        \<and> (CAMPUS_EVENTS_URL w = None \<or> CAMPUS_EVENTS_URL w = Some []) \<longrightarrow>
      get_events_for_query w qa qo r sd ed = Inr [])"
proof -
  have a: "fetch_eventbrite_events w qa qo r sd ed = Inr []
      \<and> (\<forall>out ca. get_events_for_query w qa qo r sd ed = Inr out
            \<and> fetch_campus_events w sd ed = Inr ca \<longrightarrow> set out \<subseteq> set ca)"
    if t: "EVENTBRITE_TOKEN w = None \<or> EVENTBRITE_TOKEN w = Some []"
  proof -
    have f: "fetch_eventbrite_events w qa qo r sd ed = Inr []"
      using t by (rule fetch_eventbrite_no_token)
    have "set out \<subseteq> set ca"
      if "get_events_for_query w qa qo r sd ed = Inr out" "fetch_campus_events w sd ed = Inr ca"
      for out ca
      using set_query_subset [OF that(1) f that(2)] by simp
    then show ?thesis using f by blast
  qed
  have b: "fetch_campus_events w sd ed = Inr []
      \<and> (\<forall>out eb. get_events_for_query w qa qo r sd ed = Inr out
            \<and> fetch_eventbrite_events w qa qo r sd ed = Inr eb \<longrightarrow> set out \<subseteq> set eb)"
    if u: "CAMPUS_EVENTS_URL w = None \<or> CAMPUS_EVENTS_URL w = Some []"
  proof -
    have f: "fetch_campus_events w sd ed = Inr []"
      using u by (rule fetch_campus_no_url)
    have "set out \<subseteq> set eb"
      if "get_events_for_query w qa qo r sd ed = Inr out"
        "fetch_eventbrite_events w qa qo r sd ed = Inr eb"
      for out eb
      using set_query_subset [OF that(1) that(2) f] by simp
    then show ?thesis using f by blast
  qed
  have c: "get_events_for_query w qa qo r sd ed = Inr []"
    if t: "EVENTBRITE_TOKEN w = None \<or> EVENTBRITE_TOKEN w = Some []"
      and u: "CAMPUS_EVENTS_URL w = None \<or> CAMPUS_EVENTS_URL w = Some []"
    unfolding get_events_for_query_eq [OF fetch_eventbrite_no_token [OF t] fetch_campus_no_url [OF u]]
    by (simp add: merge_nil_nil)
  show ?thesis using a b c by blast
qed

lemma fetch_campus_world_no_token:
  "fetch_campus_events world_no_token query_start query_end = Inr [art_walk]"
  by (simp add: fetch_campus_events_def world_no_token_def div_art_event)

lemma merge_art_only: "merge_and_dedupe [[], [art_walk]] = Inr [art_walk]"
  by (simp add: merge_and_dedupe_def dedupe_lists_eq)

lemma filter_art_only: "radius_filter qa qo r [art_walk] = [art_walk]"
  by (simp add: art_walk_def)

lemma query_world_no_token:
  "get_events_for_query world_no_token 0 0 10 query_start query_end = Inr [art_walk]"
proof -
  have f: "fetch_eventbrite_events world_no_token 0 0 10 query_start query_end = Inr []"
    by (simp add: fetch_eventbrite_events_def world_no_token_def)
  show ?thesis
    unfolding get_events_for_query_eq [OF f fetch_campus_world_no_token]
    by (simp only: merge_art_only sum.case filter_art_only)
qed

theorem missing_configuration_is_empty_witness:
  "EVENTBRITE_TOKEN world_no_token = None
   \<and> fetch_eventbrite_events world_no_token 0 0 10 query_start query_end = Inr []
   \<and> fetch_campus_events world_no_token query_start query_end = Inr [art_walk]
   \<and> get_events_for_query world_no_token 0 0 10 query_start query_end = Inr [art_walk]
   \<and> set [art_walk] \<subseteq> set [art_walk]
   \<and> EVENTBRITE_TOKEN world_unconfigured = None \<and> CAMPUS_EVENTS_URL world_unconfigured = None
   \<and> fetch_campus_events world_unconfigured query_start query_end = Inr []
   \<and> get_events_for_query world_unconfigured 0 0 10 query_start query_end = Inr []"
proof -
  note t = missing_configuration_is_empty [of world_no_token 0 0 10 query_start query_end]
  note u = missing_configuration_is_empty [of world_unconfigured 0 0 10 query_start query_end]
  have n: "EVENTBRITE_TOKEN world_no_token = None" by (simp add: world_no_token_def)
  have m: "EVENTBRITE_TOKEN world_unconfigured = None" "CAMPUS_EVENTS_URL world_unconfigured = None"
    by (simp_all add: world_unconfigured_def)
  have a: "fetch_eventbrite_events world_no_token 0 0 10 query_start query_end = Inr []"
    using t n by blast
  have b: "set [art_walk] \<subseteq> set [art_walk]"
    using t n query_world_no_token fetch_campus_world_no_token by blast
  have c: "fetch_campus_events world_unconfigured query_start query_end = Inr []"
    using u m by blast
  have d: "get_events_for_query world_unconfigured 0 0 10 query_start query_end = Inr []"
    using u m by blast
  show ?thesis
    using n m a b c d query_world_no_token fetch_campus_world_no_token by blast
qed

section \<open>What the adapters put into lat and lng\<close>

lemma campus_div_no_geo:
  "campus_div_to_event u sd ed d = Inr (Some e) \<Longrightarrow> lat e = None \<and> lng e = None"
  by (auto simp: campus_div_to_event_def Let_def split: sum.splits if_splits)

lemma campus_loop_no_geo:
  "e \<in> set (campus_loop u sd ed ds) \<Longrightarrow> lat e = None \<and> lng e = None"
proof (induction ds)
  case Nil
  then show ?case by simp
next
  case (Cons d ds)
  show ?case
  proof (cases "campus_div_to_event u sd ed d")
    case (Inl err)
    then show ?thesis using Cons by simp
  next
    case (Inr v)
    show ?thesis
    proof (cases v)
      case None
      then show ?thesis using Cons Inr by simp
    next
      case (Some e')
      then have "campus_div_to_event u sd ed d = Inr (Some e')" using Inr by simp
      then have "lat e' = None \<and> lng e' = None" by (rule campus_div_no_geo)
      then show ?thesis using Cons Inr Some by auto
    qed
  qed
qed

lemma fetch_campus_no_geo:
  assumes "fetch_campus_events w sd ed = Inr ca" "e \<in> set ca"
  shows "lat e = None \<and> lng e = None"
proof (cases "CAMPUS_EVENTS_URL w")
  case None
  then show ?thesis using assms by (simp add: fetch_campus_events_def)
next
  case (Some u)
  show ?thesis
  proof (cases "campus_response w")
    case (Inl err)
    then show ?thesis using assms Some
      by (simp add: fetch_campus_events_def split: if_splits)
  next
    case (Inr ds)
    then have "u = [] \<and> ca = [] \<or> ca = campus_loop u sd ed ds"
      using assms(1) Some by (simp add: fetch_campus_events_def split: if_splits)
    then show ?thesis using assms(2) campus_loop_no_geo by auto
  qed
qed

lemma convert_if_present_Some:
  "convert_if_present f conv = Inr v \<Longrightarrow> (v \<noteq> None \<longleftrightarrow> (\<exists>s. f = Val s \<and> s \<noteq> []))"
  by (cases f) (auto simp: convert_if_present_def split: if_splits sum.splits)

lemma eventbrite_item_coords:
  assumes "eventbrite_item_to_event item = Inr e"
  shows "convert_if_present (v_latitude (obj_or (i_venue item) empty_venue)) float_of_string
           = Inr (lat e)
       \<and> convert_if_present (v_longitude (obj_or (i_venue item) empty_venue)) float_of_string
           = Inr (lng e)"
  using assms
  by (auto simp: eventbrite_item_to_event_def Let_def split: sum.splits)

lemma eventbrite_loop_items:
  "e \<in> set (eventbrite_loop items)
   \<Longrightarrow> \<exists>item\<in>set items. eventbrite_item_to_event item = Inr e"
proof (induction items)
  case Nil
  then show ?case by simp
next
  case (Cons item items)
  show ?case
  proof (cases "eventbrite_item_to_event item")
    case (Inl err)
    then show ?thesis using Cons by simp
  next
    case (Inr e')
    then show ?thesis using Cons by auto
  qed
qed

lemma fetch_eventbrite_items:
  assumes "fetch_eventbrite_events w qa qo r sd ed = Inr eb" "e \<in> set eb"
  shows "\<exists>items. eventbrite_response w = Inr items
     \<and> (\<exists>item\<in>set items. eventbrite_item_to_event item = Inr e)"
proof (cases "EVENTBRITE_TOKEN w")
  case None
  then show ?thesis using assms by (simp add: fetch_eventbrite_events_def)
next
  case (Some t)
  show ?thesis
  proof (cases "eventbrite_response w")
    case (Inl err)
    then show ?thesis using assms Some
      by (simp add: fetch_eventbrite_events_def split: if_splits)
  next
    case (Inr items)
    then have "t = [] \<and> eb = [] \<or> eb = eventbrite_loop items"
      using assms(1) Some by (simp add: fetch_eventbrite_events_def split: if_splits)
    then have "e \<in> set (eventbrite_loop items)" using assms(2) by auto
    then show ?thesis using Inr eventbrite_loop_items by blast
  qed
qed

text \<open>
  C7, as the code has it. Every event of the campus adapter has neither lat nor lng. Every
  event of the Eventbrite adapter comes from an item of the payload; its lat is present exactly
  when the item's venue has a non-empty latitude, and its lng exactly when the venue has a
  non-empty longitude, each decided on its own. So lat and lng are both present or both
  absent exactly when the venue gives both coordinates or neither.
\<close>

theorem lat_lng_follow_the_venue:
  "(fetch_campus_events w sd ed = Inr ca \<longrightarrow> (\<forall>e\<in>set ca. lat e = None \<and> lng e = None))
   \<and> (fetch_eventbrite_events w qa qo r sd ed = Inr eb \<longrightarrow>
        (\<forall>e\<in>set eb. \<exists>items. eventbrite_response w = Inr items
           \<and> (\<exists>item\<in>set items. eventbrite_item_to_event item = Inr e)))
   \<and> (eventbrite_item_to_event item = Inr e \<longrightarrow>
        (lat e \<noteq> None \<longleftrightarrow>
           (\<exists>s. v_latitude (obj_or (i_venue item) empty_venue) = Val s \<and> s \<noteq> []))
        \<and> (lng e \<noteq> None \<longleftrightarrow>
           (\<exists>s. v_longitude (obj_or (i_venue item) empty_venue) = Val s \<and> s \<noteq> []))
        \<and> ((lat e = None) = (lng e = None) \<longleftrightarrow>
           (\<exists>s. v_latitude (obj_or (i_venue item) empty_venue) = Val s \<and> s \<noteq> [])
           = (\<exists>s. v_longitude (obj_or (i_venue item) empty_venue) = Val s \<and> s \<noteq> [])))"
proof -
  have a: "\<forall>e\<in>set ca. lat e = None \<and> lng e = None" if "fetch_campus_events w sd ed = Inr ca"
    using that fetch_campus_no_geo by blast
  have b: "\<forall>e\<in>set eb. \<exists>items. eventbrite_response w = Inr items
           \<and> (\<exists>item\<in>set items. eventbrite_item_to_event item = Inr e)"
    if "fetch_eventbrite_events w qa qo r sd ed = Inr eb"
    using that fetch_eventbrite_items by blast
  have c: "(lat e \<noteq> None \<longleftrightarrow>
           (\<exists>s. v_latitude (obj_or (i_venue item) empty_venue) = Val s \<and> s \<noteq> []))
        \<and> (lng e \<noteq> None \<longleftrightarrow>
           (\<exists>s. v_longitude (obj_or (i_venue item) empty_venue) = Val s \<and> s \<noteq> []))
        \<and> ((lat e = None) = (lng e = None) \<longleftrightarrow>
           (\<exists>s. v_latitude (obj_or (i_venue item) empty_venue) = Val s \<and> s \<noteq> [])
           = (\<exists>s. v_longitude (obj_or (i_venue item) empty_venue) = Val s \<and> s \<noteq> []))"
    if i: "eventbrite_item_to_event item = Inr e"
  proof -
    have la: "lat e \<noteq> None \<longleftrightarrow>
           (\<exists>s. v_latitude (obj_or (i_venue item) empty_venue) = Val s \<and> s \<noteq> [])"
      using eventbrite_item_coords [OF i] convert_if_present_Some by blast
    have lo: "lng e \<noteq> None \<longleftrightarrow>
           (\<exists>s. v_longitude (obj_or (i_venue item) empty_venue) = Val s \<and> s \<noteq> [])"
      using eventbrite_item_coords [OF i] convert_if_present_Some by blast
    show ?thesis using la lo by blast
  qed
  show ?thesis using a b c by blast
qed

theorem lat_lng_both_or_neither_counterexample:
  "fetch_eventbrite_events world_eventbrite 0 0 10 query_start query_end
     = Inr [ev_origin, ev_far, ev_no_geo, ev_lat_only]
   \<and> lat ev_lat_only = Some 40 \<and> lng ev_lat_only = None"
  using fetch_world_eventbrite by (simp add: coords_samples)

theorem lat_lng_follow_the_venue_witness:
  "fetch_campus_events world_no_token query_start query_end = Inr [art_walk]
   \<and> lat art_walk = None \<and> lng art_walk = None
   \<and> fetch_eventbrite_events world_eventbrite 0 0 10 query_start query_end
       = Inr [ev_origin, ev_far, ev_no_geo, ev_lat_only]
   \<and> eventbrite_item_to_event item_lat_only = Inr ev_lat_only
   \<and> v_latitude (obj_or (i_venue item_lat_only) empty_venue) = Val ''40.0''
   \<and> v_longitude (obj_or (i_venue item_lat_only) empty_venue) = Null
   \<and> lat ev_lat_only \<noteq> None \<and> lng ev_lat_only = None
   \<and> eventbrite_item_to_event item_origin = Inr ev_origin
   \<and> lat ev_origin \<noteq> None \<and> lng ev_origin \<noteq> None"
proof -
  note t = lat_lng_follow_the_venue [of world_no_token query_start query_end "[art_walk]"
      0 0 10 "[]" item_lat_only ev_lat_only]
  note u = lat_lng_follow_the_venue [of world_no_token query_start query_end "[art_walk]"
      0 0 10 "[]" item_origin ev_origin]
  have a: "lat art_walk = None \<and> lng art_walk = None"
    using t fetch_campus_world_no_token by simp
  have v: "v_latitude (obj_or (i_venue item_lat_only) empty_venue) = Val ''40.0''"
    "v_longitude (obj_or (i_venue item_lat_only) empty_venue) = Null"
    by (simp_all add: item_lat_only_def obj_or_def)
  have b: "lat ev_lat_only \<noteq> None \<and> lng ev_lat_only = None"
    using t item_lat_only_event v by simp
  have vo: "v_latitude (obj_or (i_venue item_origin) empty_venue) = Val ''0.0''"
    "v_longitude (obj_or (i_venue item_origin) empty_venue) = Val ''0.0''"
    by (simp_all add: item_origin_def obj_or_def)
  have c: "lat ev_origin \<noteq> None \<and> lng ev_origin \<noteq> None"
    using u item_origin_event vo by simp
  show ?thesis
    using a b c v fetch_campus_world_no_token fetch_world_eventbrite item_lat_only_event
      item_origin_event by simp
qed

section \<open>Upstream failures and mixed start times\<close>

lemma fetch_eventbrite_Inl:
  "fetch_eventbrite_events w qa qo r sd ed = Inl err \<longleftrightarrow>
     (\<exists>t. EVENTBRITE_TOKEN w = Some t \<and> t \<noteq> []) \<and> eventbrite_response w = Inl err"
  by (cases "EVENTBRITE_TOKEN w"; cases "eventbrite_response w")
     (simp_all add: fetch_eventbrite_events_def)

lemma fetch_campus_Inl:
  "fetch_campus_events w sd ed = Inl err \<longleftrightarrow>
     (\<exists>u. CAMPUS_EVENTS_URL w = Some u \<and> u \<noteq> []) \<and> campus_response w = Inl err"
  by (cases "CAMPUS_EVENTS_URL w"; cases "campus_response w")
     (simp_all add: fetch_campus_events_def)

lemma query_eventbrite_raises:
  "fetch_eventbrite_events w qa qo r sd ed = Inl err
   \<Longrightarrow> get_events_for_query w qa qo r sd ed = Inl err"
  by (simp add: get_events_for_query_def)

lemma query_campus_raises:
  "fetch_eventbrite_events w qa qo r sd ed = Inr eb \<Longrightarrow> fetch_campus_events w sd ed = Inl err
   \<Longrightarrow> get_events_for_query w qa qo r sd ed = Inl err"
  by (simp add: get_events_for_query_def)

lemma index_events_caught:
  assumes "la \<noteq> []" "lo \<noteq> []"
    and "float_of_string la = Inr qa" "float_of_string lo = Inr qo"
    and "fromisoformat ds = Inr sd" "fromisoformat de = Inr ed"
    and "get_events_for_query w qa qo 10 sd ed = Inl err"
  shows "index_events w (Some la) (Some lo) None None None ds de = []"
  using assms by (simp add: index_events_def param_given_def param_or_def)

text \<open>
  C1, as the code has it. An adapter raises exactly when it is configured and its upstream
  request fails; nothing in the aggregation pipeline catches that: the error leaves the
  adapter and leaves \<^verbatim>\<open>get_events_for_query\<close>, which then returns no list, whatever the
  other adapter has. The index route catches it, and its event list is then empty.
\<close>

theorem upstream_failure_propagates:
  "(fetch_eventbrite_events w qa qo r sd ed = Inl err \<longleftrightarrow>
      (\<exists>t. EVENTBRITE_TOKEN w = Some t \<and> t \<noteq> []) \<and> eventbrite_response w = Inl err)
   \<and> (fetch_campus_events w sd ed = Inl err \<longleftrightarrow>
      (\<exists>u. CAMPUS_EVENTS_URL w = Some u \<and> u \<noteq> []) \<and> campus_response w = Inl err)
   \<and> (fetch_eventbrite_events w qa qo r sd ed = Inl err \<longrightarrow>
        get_events_for_query w qa qo r sd ed = Inl err)
   \<and> (fetch_eventbrite_events w qa qo r sd ed = Inr eb
        \<and> fetch_campus_events w sd ed = Inl err \<longrightarrow>
        get_events_for_query w qa qo r sd ed = Inl err)
   \<and> (la \<noteq> [] \<and> lo \<noteq> [] \<and> float_of_string la = Inr qa' \<and> float_of_string lo = Inr qo'
        \<and> fromisoformat ds = Inr sd' \<and> fromisoformat de = Inr ed'
        \<and> get_events_for_query w qa' qo' 10 sd' ed' = Inl err \<longrightarrow>
        index_events w (Some la) (Some lo) None None None ds de = [])"
  using fetch_eventbrite_Inl [of w qa qo r sd ed err] fetch_campus_Inl [of w sd ed err]
    query_eventbrite_raises [of w qa qo r sd ed err]
    query_campus_raises [of w qa qo r sd ed eb err]
    index_events_caught [of la lo qa' qo' ds sd' de ed' w err]
  by blast

lemma fetch_campus_world_eventbrite_down:
  "fetch_campus_events world_eventbrite_down query_start query_end = Inr [art_walk]"
  by (simp add: fetch_campus_events_def world_eventbrite_down_def div_art_event)

lemma fetch_eventbrite_world_eventbrite_down:
  "fetch_eventbrite_events world_eventbrite_down 0 0 10 query_start query_end
     = Inl RequestException"
  by (simp add: fetch_eventbrite_events_def world_eventbrite_down_def)

lemma parse_query_dates:
  "fromisoformat ''2024-06-01'' = Inr query_start" "fromisoformat ''2024-06-08'' = Inr query_end"
  by code_simp+

lemma parse_zero: "float_of_string ''0.0'' = Inr 0"
  by code_simp

theorem upstream_failure_counterexample:
  "fetch_campus_events world_eventbrite_down query_start query_end = Inr [art_walk]
   \<and> radius_filter 0 0 10 [art_walk] = [art_walk]
   \<and> get_events_for_query world_eventbrite_down 0 0 10 query_start query_end
       = Inl RequestException"
  using fetch_campus_world_eventbrite_down filter_art_only
    query_eventbrite_raises [OF fetch_eventbrite_world_eventbrite_down]
  by simp

theorem upstream_failure_propagates_witness:
  "EVENTBRITE_TOKEN world_eventbrite_down = Some ''token''
   \<and> eventbrite_response world_eventbrite_down = Inl RequestException
   \<and> fetch_eventbrite_events world_eventbrite_down 0 0 10 query_start query_end
       = Inl RequestException
   \<and> get_events_for_query world_eventbrite_down 0 0 10 query_start query_end
       = Inl RequestException
   \<and> float_of_string ''0.0'' = Inr 0
   \<and> fromisoformat ''2024-06-01'' = Inr query_start
   \<and> fromisoformat ''2024-06-08'' = Inr query_end
   \<and> index_events world_eventbrite_down (Some ''0.0'') (Some ''0.0'') None None None
        ''2024-06-01'' ''2024-06-08'' = []"
proof -
  note t = upstream_failure_propagates [of world_eventbrite_down 0 0 10 query_start query_end
      RequestException "[]" "''0.0''" "''0.0''" 0 0 "''2024-06-01''" query_start
      "''2024-06-08''" query_end]
  have k: "EVENTBRITE_TOKEN world_eventbrite_down = Some ''token''"
    "eventbrite_response world_eventbrite_down = Inl RequestException"
    by (simp_all add: world_eventbrite_down_def)
  have f: "fetch_eventbrite_events world_eventbrite_down 0 0 10 query_start query_end
       = Inl RequestException"
    using t k by simp
  have g: "get_events_for_query world_eventbrite_down 0 0 10 query_start query_end
       = Inl RequestException"
    using t f by blast
  have i: "index_events world_eventbrite_down (Some ''0.0'') (Some ''0.0'') None None None
        ''2024-06-01'' ''2024-06-08'' = []"
    using t g parse_zero parse_query_dates by simp
  show ?thesis using k f g i parse_zero parse_query_dates by simp
qed

lemma fetch_eventbrite_world_both:
  "fetch_eventbrite_events world_both 0 0 10 query_start query_end = Inr [ev_origin]"
  by (simp add: fetch_eventbrite_events_def world_both_def item_origin_event)

lemma fetch_campus_world_both:
  "fetch_campus_events world_both query_start query_end = Inr [art_walk]"
  by (simp add: fetch_campus_events_def world_both_def div_art_event)

lemma merge_world_both: "merge_and_dedupe [[ev_origin], [art_walk]] = Inl TypeError"
proof -
  have k: "keep_new {} (concat [[ev_origin], [art_walk]]) = [ev_origin, art_walk]"
    by (simp add: utc_sigs sig_art_walk)
  have c: "\<not> consistent_tz [ev_origin, art_walk]"
    by (simp add: consistent_tz_def aware_samples naive_samples)
  show ?thesis unfolding merge_and_dedupe_char k using c by simp
qed

lemma query_world_both:
  "get_events_for_query world_both 0 0 10 query_start query_end = Inl TypeError"
  unfolding get_events_for_query_eq [OF fetch_eventbrite_world_both fetch_campus_world_both]
  by (simp only: merge_world_both sum.case)

text \<open>
  C5 on the code. The Eventbrite adapter reads \<^verbatim>\<open>2024-06-01T18:00:00Z\<close> as an aware
  start time, the campus adapter reads \<^verbatim>\<open>2024-06-02 10:00\<close> as a naive one; the two do not
  compare, the sort of the merge step raises \<open>TypeError\<close>, and so does the query. The page
  then shows no event although each source has one.
\<close>

theorem mixed_start_times_raise:
  "fetch_eventbrite_events world_both 0 0 10 query_start query_end = Inr [ev_origin]
   \<and> fetch_campus_events world_both query_start query_end = Inr [art_walk]
   \<and> aware (start_time ev_origin) \<and> \<not> aware (start_time art_walk)
   \<and> dt_lt (start_time art_walk) (start_time ev_origin) = Inl TypeError
   \<and> merge_and_dedupe [[ev_origin], [art_walk]] = Inl TypeError
   \<and> get_events_for_query world_both 0 0 10 query_start query_end = Inl TypeError
   \<and> index_events world_both (Some ''0.0'') (Some ''0.0'') None None None
        ''2024-06-01'' ''2024-06-08'' = []"
proof -
  have d: "dt_lt (start_time art_walk) (start_time ev_origin) = Inl TypeError"
    by (simp add: dt_lt_def aware_samples naive_samples)
  have i: "index_events world_both (Some ''0.0'') (Some ''0.0'') None None None
        ''2024-06-01'' ''2024-06-08'' = []"
    using index_events_caught [OF _ _ parse_zero parse_zero parse_query_dates query_world_both]
    by simp
  show ?thesis
    using fetch_eventbrite_world_both fetch_campus_world_both aware_samples(1) naive_samples(3)
      d merge_world_both query_world_both i
    by simp
qed

end
